theory Spec2Isabelle
  imports Complex_Main "HOL-Library.Sublist" "HOL-Library.Multiset"
begin

section \<open>Characters and strings\<close>

text \<open>
  Identifiers are modelled as \<^typ>\<open>string\<close>, one \<^typ>\<open>char\<close> per code unit; the
  identifiers of both SDKs are ASCII. The regular expression class \<^verbatim>\<open>[a-z]\<close> and the
  case conversions of the source act on the ASCII letters.
\<close>

definition isLowerAZ :: "char \<Rightarrow> bool" where
  "isLowerAZ c \<longleftrightarrow> 97 \<le> (of_char c :: nat) \<and> (of_char c :: nat) \<le> 122"

definition isUpperAZ :: "char \<Rightarrow> bool" where
  "isUpperAZ c \<longleftrightarrow> 65 \<le> (of_char c :: nat) \<and> (of_char c :: nat) \<le> 90"

definition toUpperChar :: "char \<Rightarrow> char" where
  "toUpperChar c = (if isLowerAZ c then char_of ((of_char c :: nat) - 32) else c)"

definition toLowerChar :: "char \<Rightarrow> char" where
  "toLowerChar c = (if isUpperAZ c then char_of ((of_char c :: nat) + 32) else c)"

definition toLowerCase :: "string \<Rightarrow> string" where
  "toLowerCase s = map toLowerChar s"

section \<open>Identifier normalizer\<close>

text \<open>
  \<^verbatim>\<open>str.replace(/_([a-z])/g, (_, letter) => letter.toUpperCase())\<close>: the global replace
  scans from the left; at an underscore followed by a letter of \<^verbatim>\<open>[a-z]\<close> it emits the
  upper-cased letter and resumes after the letter, anywhere else it copies one character.
\<close>

fun toCamelCase :: "string \<Rightarrow> string" where
  "toCamelCase [] = []"
| "toCamelCase [c] = [c]"
| "toCamelCase (c # d # cs) =
     (if c = CHR ''_'' \<and> isLowerAZ d then toUpperChar d # toCamelCase cs
      else c # toCamelCase (d # cs))"

text \<open>
  The normalizer as the specification words it: every underscore is deleted, and a letter
  that immediately follows a deleted underscore is upper-cased.
\<close>

fun specNormalize :: "string \<Rightarrow> string" where
  "specNormalize [] = []"
| "specNormalize (c # cs) =
     (if c = CHR ''_'' then
        (case cs of [] \<Rightarrow> []
         | d # ds \<Rightarrow> if isLowerAZ d then toUpperChar d # specNormalize ds
                     else specNormalize cs)
      else c # specNormalize cs)"

text \<open>
  The character the normalizer leaves at position \<open>i\<close> of \<open>s\<close>, given the character
  \<open>p\<close> in front of the string: nothing for an underscore in front of a letter of
  \<^verbatim>\<open>[a-z]\<close>, the upper-cased letter behind an underscore, the character itself otherwise.
\<close>

definition charBefore :: "char option \<Rightarrow> string \<Rightarrow> nat \<Rightarrow> char option" where
  "charBefore p s i = (if i = 0 then p else Some (s ! (i - 1)))"

definition charAfter :: "string \<Rightarrow> nat \<Rightarrow> char option" where
  "charAfter s i = (if Suc i < length s then Some (s ! Suc i) else None)"

definition startsMatch :: "string \<Rightarrow> nat \<Rightarrow> bool" where
  "startsMatch s i \<longleftrightarrow>
     s ! i = CHR ''_'' \<and> (case charAfter s i of None \<Rightarrow> False | Some d \<Rightarrow> isLowerAZ d)"

definition endsMatch :: "char option \<Rightarrow> string \<Rightarrow> nat \<Rightarrow> bool" where
  "endsMatch p s i \<longleftrightarrow> isLowerAZ (s ! i) \<and> charBefore p s i = Some CHR ''_''"

definition normalizedAt :: "char option \<Rightarrow> string \<Rightarrow> nat \<Rightarrow> string" where
  "normalizedAt p s i =
     (if startsMatch s i then []
      else if endsMatch p s i then [toUpperChar (s ! i)]
      else [s ! i])"

definition underscoresLedByLetter :: "string \<Rightarrow> bool" where
  "underscoresLedByLetter s \<longleftrightarrow> list_all (\<lambda>i. s ! i = CHR ''_'' \<longrightarrow> startsMatch s i) [0..<length s]"

section \<open>Data model\<close>

text \<open>
  The interfaces \<^verbatim>\<open>Method\<close>, \<^verbatim>\<open>Class\<close> and \<^verbatim>\<open>SDKData\<close>. Optional numeric fields are
  \<^typ>\<open>int option\<close>. The fields \<^verbatim>\<open>parameters\<close>, \<^verbatim>\<open>returns\<close>, \<^verbatim>\<open>isAsync\<close>,
  \<^verbatim>\<open>decorators\<close> of a method and \<^verbatim>\<open>abstract\<close>, \<^verbatim>\<open>extends\<close>, \<^verbatim>\<open>implements\<close> and the
  line span of a class are read by the rendering code only and are left out. The field
  \<^verbatim>\<open>name\<close> of a class is \<open>cname\<close> here, since a record field name is global.
\<close>

record Method =
  name :: string
  kind :: string
  line :: "int option"
  startLine :: "int option"
  endLine :: "int option"

record Class =
  cname :: string
  cfile :: string
  methods :: "Method list"

record SDKData =
  classes :: "Class list"

text \<open>
  \<^verbatim>\<open>v || d\<close> on an optional number: \<^verbatim>\<open>undefined\<close> and \<^verbatim>\<open>0\<close> are both falsy.
\<close>

definition orElse :: "int option \<Rightarrow> int \<Rightarrow> int" where
  "orElse v d = (case v of None \<Rightarrow> d | Some n \<Rightarrow> if n = 0 then d else n)"

text \<open>
  \<^verbatim>\<open>(m.endLine || m.line || 1) - (m.startLine || m.line || 1) + 1\<close>, the line-length
  expression the source repeats at every use.
\<close>

definition methodLength :: "Method \<Rightarrow> int" where
  "methodLength m =
     orElse (endLine m) (orElse (line m) 1) - orElse (startLine m) (orElse (line m) 1) + 1"

text \<open>
  The line-length as the specification writes it, with \<^verbatim>\<open>??\<close>:
  \<^verbatim>\<open>(endLine ?? line ?? 1) - (startLine ?? line ?? 1) + 1\<close>.
\<close>

definition specLength :: "Method \<Rightarrow> int" where
  "specLength m =
     (case endLine m of Some e \<Rightarrow> e | None \<Rightarrow> (case line m of Some l \<Rightarrow> l | None \<Rightarrow> 1))
     - (case startLine m of Some s \<Rightarrow> s | None \<Rightarrow> (case line m of Some l \<Rightarrow> l | None \<Rightarrow> 1))
     + 1"

definition oneBased :: "Method \<Rightarrow> bool" where
  "oneBased m \<longleftrightarrow> line m \<noteq> Some 0 \<and> startLine m \<noteq> Some 0 \<and> endLine m \<noteq> Some 0"

definition notConstructor :: "Method \<Rightarrow> bool" where
  "notConstructor m \<longleftrightarrow> name m \<noteq> ''constructor''"

section \<open>Library operations of the host language\<close>

text \<open>
  \<^verbatim>\<open>Array.prototype.sort(cmp)\<close> is stable. For a comparator that is a total preorder
  the result is the one stable arrangement, which insertion from the right computes.
  The argument \<open>after a b\<close> stands for \<^verbatim>\<open>cmp(a, b) > 0\<close>.
\<close>

fun insertBy :: "('a \<Rightarrow> 'a \<Rightarrow> bool) \<Rightarrow> 'a \<Rightarrow> 'a list \<Rightarrow> 'a list" where
  "insertBy after x [] = [x]"
| "insertBy after x (y # ys) = (if after x y then y # insertBy after x ys else x # y # ys)"

definition sortBy :: "('a \<Rightarrow> 'a \<Rightarrow> bool) \<Rightarrow> 'a list \<Rightarrow> 'a list" where
  "sortBy after xs = foldr (insertBy after) xs []"

text \<open>\<^verbatim>\<open>new Set(xs)\<close>, in insertion order: the first occurrence of each element.\<close>

definition newSet :: "'a list \<Rightarrow> 'a list" where
  "newSet xs = fold (\<lambda>x acc. if x \<in> set acc then acc else acc @ [x]) xs []"

text \<open>\<^verbatim>\<open>xs.join(sep)\<close> and \<^verbatim>\<open>text.includes(s)\<close> (here \<open>includesStr\<close>).\<close>

fun join :: "string \<Rightarrow> string list \<Rightarrow> string" where
  "join sep [] = []"
| "join sep [x] = x"
| "join sep (x # y # ys) = x @ sep @ join sep (y # ys)"

fun startsWith :: "string \<Rightarrow> string \<Rightarrow> bool" where
  "startsWith cs [] = True"
| "startsWith [] (x # xs) = False"
| "startsWith (c # cs) (x # xs) = (c = x \<and> startsWith cs xs)"

fun includesStr :: "string \<Rightarrow> string \<Rightarrow> bool" where
  "includesStr [] s = (s = [])"
| "includesStr (c # cs) s = (startsWith (c # cs) s \<or> includesStr cs s)"

section \<open>Class index and class filter\<close>

text \<open>
  \<^verbatim>\<open>new Map(data.classes.map((cls) => [cls.name, cls]))\<close>: a later class of the same name
  replaces an earlier one.
\<close>

definition classesMap :: "SDKData \<Rightarrow> (string \<rightharpoonup> Class)" where
  "classesMap d = fold (\<lambda>cls m. m(cname cls \<mapsto> cls)) (classes d) Map.empty"

definition allClassNames :: "SDKData \<Rightarrow> SDKData \<Rightarrow> string list" where
  "allClassNames tsData pythonData =
     newSet (map cname (classes tsData) @ map cname (classes pythonData))"

text \<open>
  The comparator of \<^verbatim>\<open>sortedClassNames\<close>: combined method count (TypeScript without
  constructors) descending, then \<^verbatim>\<open>localeCompare\<close>. String collation belongs to the
  platform and is the parameter \<open>localeCompare\<close>. The second copy of the component
  sorts the names with the default order instead; its filter callback is the same.
\<close>

definition methodCount :: "(string \<rightharpoonup> Class) \<Rightarrow> (string \<rightharpoonup> Class) \<Rightarrow> string \<Rightarrow> int" where
  "methodCount tsClassesMap pythonClassesMap a =
     (case tsClassesMap a of None \<Rightarrow> 0
      | Some c \<Rightarrow> int (length (filter notConstructor (methods c))))
     + (case pythonClassesMap a of None \<Rightarrow> 0 | Some c \<Rightarrow> int (length (methods c)))"

definition sortedClassNames ::
  "(string \<Rightarrow> string \<Rightarrow> int) \<Rightarrow> SDKData \<Rightarrow> SDKData \<Rightarrow> string list" where
  "sortedClassNames localeCompare tsData pythonData =
     (let tsClassesMap = classesMap tsData; pythonClassesMap = classesMap pythonData in
      sortBy (\<lambda>a b.
          (let methodCountA = methodCount tsClassesMap pythonClassesMap a;
               methodCountB = methodCount tsClassesMap pythonClassesMap b
           in if methodCountA \<noteq> methodCountB then methodCountB - methodCountA > 0
              else localeCompare a b > 0))
        (allClassNames tsData pythonData))"

text \<open>The state hooks that the class filter reads.\<close>

record Filters =
  showCommon :: bool
  showTsOnly :: bool
  showPythonOnly :: bool
  searchTerm :: string
  hideEmptyClasses :: bool

definition methodNamesText :: "Class option \<Rightarrow> string" where
  "methodNamesText c = (case c of None \<Rightarrow> [] | Some cls \<Rightarrow> join '' '' (map name (methods cls)))"

definition searchText :: "string \<Rightarrow> Class option \<Rightarrow> Class option \<Rightarrow> string" where
  "searchText className tsClass pythonClass =
     toLowerCase (className @ '' '' @ methodNamesText tsClass @ '' '' @ methodNamesText pythonClass)"

definition methodsLength :: "Class option \<Rightarrow> nat" where
  "methodsLength c = (case c of None \<Rightarrow> 0 | Some cls \<Rightarrow> length (methods cls))"

text \<open>The callback of \<^verbatim>\<open>sortedClassNames.filter\<close>.\<close>

definition keepClass ::
  "Filters \<Rightarrow> (string \<rightharpoonup> Class) \<Rightarrow> (string \<rightharpoonup> Class) \<Rightarrow> string \<Rightarrow> bool" where
  "keepClass f tsClassesMap pythonClassesMap className =
     (let tsClass = tsClassesMap className; pythonClass = pythonClassesMap className in
      if hideEmptyClasses f \<and> methodsLength tsClass = 0 \<and> methodsLength pythonClass = 0
      then False
      else
        (let matchesToggle =
               (if tsClass \<noteq> None \<and> pythonClass \<noteq> None \<and> showCommon f then True
                else if tsClass \<noteq> None \<and> pythonClass = None \<and> showTsOnly f then True
                else if tsClass = None \<and> pythonClass \<noteq> None \<and> showPythonOnly f then True
                else False);
             matchesSearch =
               (searchTerm f = [] \<or>
                includesStr (searchText className tsClass pythonClass) (toLowerCase (searchTerm f)))
         in matchesToggle \<and> matchesSearch))"

definition filteredClassNames ::
  "(string \<Rightarrow> string \<Rightarrow> int) \<Rightarrow> Filters \<Rightarrow> SDKData \<Rightarrow> SDKData \<Rightarrow> string list" where
  "filteredClassNames localeCompare f tsData pythonData =
     filter (keepClass f (classesMap tsData) (classesMap pythonData))
       (sortedClassNames localeCompare tsData pythonData)"

section \<open>Cross-SDK matcher\<close>

definition getMethodComparisonStatus ::
  "string \<Rightarrow> Class option \<Rightarrow> Class option \<Rightarrow> string \<Rightarrow> string" where
  "getMethodComparisonStatus methodName tsClass pythonClass currentSdkName =
     (case (tsClass, pythonClass) of
        (Some tsC, Some pyC) \<Rightarrow>
          (let tsMethodNames = map name (filter notConstructor (methods tsC));
               pythonMethodNames = map name (methods pyC);
               pythonMethodNamesCamelCase = map toCamelCase pythonMethodNames;
               normalizedCurrentMethod =
                 (if currentSdkName = ''python'' then toCamelCase methodName else methodName);
               tsHasMethod = normalizedCurrentMethod \<in> set tsMethodNames;
               pythonHasMethod = normalizedCurrentMethod \<in> set pythonMethodNamesCamelCase
           in if tsHasMethod \<and> pythonHasMethod then ''both''
              else if tsHasMethod \<and> \<not> pythonHasMethod then ''ts-only''
              else if \<not> tsHasMethod \<and> pythonHasMethod then ''python-only''
              else ''missing'')
      | _ \<Rightarrow> ''missing'')"

text \<open>A class that is present and has at least one entry in its \<^verbatim>\<open>methods\<close> array.\<close>

definition hasMethods :: "Class option \<Rightarrow> bool" where
  "hasMethods c \<longleftrightarrow> (case c of None \<Rightarrow> False | Some cls \<Rightarrow> methods cls \<noteq> [])"

section \<open>Example data of the testable properties\<close>

definition mkMethod :: "string \<Rightarrow> int option \<Rightarrow> int option \<Rightarrow> Method" where
  "mkMethod n s e = \<lparr>name = n, kind = ''method'', line = None, startLine = s, endLine = e\<rparr>"

definition fooTs :: Class where
  "fooTs = \<lparr>cname = ''Foo'', cfile = ''protocol-v2/sdk/src/foo.ts'',
     methods = [mkMethod ''getPrice'' (Some 10) (Some 12), mkMethod ''constructor'' (Some 3) (Some 8)]\<rparr>"

definition fooPy :: Class where
  "fooPy = \<lparr>cname = ''Foo'', cfile = ''driftpy/foo.py'',
     methods = [mkMethod ''get_price'' (Some 5) (Some 50)]\<rparr>"

definition barPy :: Class where
  "barPy = \<lparr>cname = ''Bar'', cfile = ''driftpy/bar.py'',
     methods = [mkMethod ''initialize'' (Some 1) (Some 4)]\<rparr>"

definition noFilters :: Filters where
  "noFilters = \<lparr>showCommon = False, showTsOnly = False, showPythonOnly = False,
     searchTerm = ''bar'', hideEmptyClasses = True\<rparr>"

definition pythonOnlyFilters :: Filters where
  "pythonOnlyFilters = \<lparr>showCommon = False, showTsOnly = False, showPythonOnly = True,
     searchTerm = ''INIT'', hideEmptyClasses = True\<rparr>"

text \<open>A stand-in collation for evaluating examples: code-unit order of the first characters.\<close>

definition firstCharCompare :: "string \<Rightarrow> string \<Rightarrow> int" where
  "firstCharCompare a b =
     (case (a, b) of
        (c # _, d # _) \<Rightarrow> int (of_char c) - int (of_char d)
      | ([], _ # _) \<Rightarrow> - 1
      | (_ # _, []) \<Rightarrow> 1
      | ([], []) \<Rightarrow> 0)"

section \<open>Ranking engine: longest methods\<close>

text \<open>
  An element of \<^verbatim>\<open>methodLengths\<close>. The source's fields \<^verbatim>\<open>method\<close>, \<^verbatim>\<open>className\<close>,
  \<^verbatim>\<open>sdkName\<close>, \<^verbatim>\<open>length\<close> are \<open>entryMethod\<close>, \<open>ownerName\<close>, \<open>sdkTag\<close>, \<open>lineLength\<close>.
\<close>

record LengthEntry =
  entryMethod :: Method
  ownerName :: string
  sdkTag :: string
  lineLength :: int

definition lengthEntry :: "string \<Rightarrow> Class \<Rightarrow> Method \<Rightarrow> LengthEntry" where
  "lengthEntry sdk cls m =
     \<lparr>entryMethod = m, ownerName = cname cls, sdkTag = sdk, lineLength = methodLength m\<rparr>"

text \<open>
  The two nested \<^verbatim>\<open>forEach\<close> loops push onto \<^verbatim>\<open>methodLengths\<close>; then
  \<^verbatim>\<open>.sort((a, b) => b.length - a.length).slice(0, 15)\<close>.
\<close>

definition findLongestMethods :: "SDKData \<Rightarrow> SDKData \<Rightarrow> LengthEntry list" where
  "findLongestMethods tsData pythonData =
     (let methodLengths0 = [];
          methodLengths1 =
            fold (\<lambda>cls acc.
                fold (\<lambda>m acc. if name m \<noteq> ''constructor'' then acc @ [lengthEntry ''ts'' cls m]
                                else acc)
                  (methods cls) acc)
              (classes tsData) methodLengths0;
          methodLengths2 =
            fold (\<lambda>cls acc. fold (\<lambda>m acc. acc @ [lengthEntry ''python'' cls m]) (methods cls) acc)
              (classes pythonData) methodLengths1
      in take 15 (sortBy (\<lambda>a b. lineLength b - lineLength a > 0) methodLengths2))"

text \<open>
  Every method of both SDKs except the TypeScript methods named \<open>constructor\<close>, in
  dataset order, each with its line-length.
\<close>

definition allMethodEntries :: "SDKData \<Rightarrow> SDKData \<Rightarrow> LengthEntry list" where
  "allMethodEntries tsData pythonData =
     concat (map (\<lambda>cls. map (lengthEntry ''ts'' cls) (filter notConstructor (methods cls)))
       (classes tsData))
     @ concat (map (\<lambda>cls. map (lengthEntry ''python'' cls) (methods cls)) (classes pythonData))"

section \<open>Ranking engine: size ratios\<close>

text \<open>
  The quotient of two line-lengths is a \<^verbatim>\<open>number\<close>: a finite value, an infinity when the
  divisor is 0, or \<^verbatim>\<open>NaN\<close>. Finite values are exact rationals here; the rounding of the
  quotient to a double is not modelled.
\<close>

datatype jsnum = Fin rat | PosInf | NegInf | NaN

definition jsDiv :: "int \<Rightarrow> int \<Rightarrow> jsnum" where
  "jsDiv a b =
     (if b = 0 then (if a > 0 then PosInf else if a < 0 then NegInf else NaN)
      else Fin (of_int a / of_int b))"

fun jsSub :: "jsnum \<Rightarrow> jsnum \<Rightarrow> jsnum" where
  "jsSub (Fin x) (Fin y) = Fin (x - y)"
| "jsSub NaN _ = NaN"
| "jsSub _ NaN = NaN"
| "jsSub PosInf PosInf = NaN"
| "jsSub NegInf NegInf = NaN"
| "jsSub PosInf _ = PosInf"
| "jsSub NegInf _ = NegInf"
| "jsSub (Fin x) PosInf = NegInf"
| "jsSub (Fin x) NegInf = PosInf"

text \<open>\<^verbatim>\<open>v > 0\<close> for a comparator result \<^verbatim>\<open>v\<close>; the sort takes \<^verbatim>\<open>NaN\<close> as 0.\<close>

fun jsPositive :: "jsnum \<Rightarrow> bool" where
  "jsPositive (Fin x) = (x > 0)"
| "jsPositive PosInf = True"
| "jsPositive NegInf = False"
| "jsPositive NaN = False"

text \<open>\<^verbatim>\<open>a >= b\<close> on numbers.\<close>

fun jsGe :: "jsnum \<Rightarrow> jsnum \<Rightarrow> bool" where
  "jsGe (Fin x) (Fin y) = (x \<ge> y)"
| "jsGe NaN _ = False"
| "jsGe _ NaN = False"
| "jsGe PosInf _ = True"
| "jsGe _ NegInf = True"
| "jsGe (Fin x) PosInf = False"
| "jsGe NegInf _ = False"

record RatioEntry =
  methodName :: string
  className :: string
  pythonLength :: int
  tsLength :: int
  ratio :: jsnum

text \<open>\<^verbatim>\<open>method.name.toLowerCase().replace(/_/g, "")\<close> and the key \<^verbatim>\<open>`${cls.name}.${normalizedName}`\<close>.\<close>

definition normalizeLoose :: "string \<Rightarrow> string" where
  "normalizeLoose n = filter (\<lambda>c. c \<noteq> CHR ''_'') (toLowerCase n)"

definition methodKey :: "Class \<Rightarrow> Method \<Rightarrow> string" where
  "methodKey cls m = cname cls @ ''.'' @ normalizeLoose (name m)"

definition findSizeRatioMethods :: "SDKData \<Rightarrow> SDKData \<Rightarrow> RatioEntry list" where
  "findSizeRatioMethods tsData pythonData =
     (let tsMethods =
            fold (\<lambda>cls idx.
                fold (\<lambda>m idx. if name m \<noteq> ''constructor''
                                then idx(methodKey cls m \<mapsto> (m, cname cls)) else idx)
                  (methods cls) idx)
              (classes tsData) Map.empty;
          methodRatios =
            fold (\<lambda>cls acc.
                fold (\<lambda>m acc.
                    (let pythonLength = methodLength m in
                     case tsMethods (methodKey cls m) of
                       None \<Rightarrow> acc
                     | Some (tsMethod, _) \<Rightarrow>
                         (let tsLength = methodLength tsMethod in
                          if pythonLength > tsLength
                          then acc @ [\<lparr>methodName = name m, className = cname cls,
                                       pythonLength = pythonLength, tsLength = tsLength,
                                       ratio = jsDiv pythonLength tsLength\<rparr>]
                          else acc)))
                  (methods cls) acc)
              (classes pythonData) []
      in take 15 (sortBy (\<lambda>a b. jsPositive (jsSub (ratio b) (ratio a))) methodRatios))"

definition findTsSizeRatioMethods :: "SDKData \<Rightarrow> SDKData \<Rightarrow> RatioEntry list" where
  "findTsSizeRatioMethods tsData pythonData =
     (let pythonMethods =
            fold (\<lambda>cls idx.
                fold (\<lambda>m idx. idx(methodKey cls m \<mapsto> (m, cname cls))) (methods cls) idx)
              (classes pythonData) Map.empty;
          methodRatios =
            fold (\<lambda>cls acc.
                fold (\<lambda>m acc.
                    if name m \<noteq> ''constructor'' then
                      (let tsLength = methodLength m in
                       case pythonMethods (methodKey cls m) of
                         None \<Rightarrow> acc
                       | Some (pythonMethod, _) \<Rightarrow>
                           (let pythonLength = methodLength pythonMethod in
                            if tsLength > pythonLength
                            then acc @ [\<lparr>methodName = name m, className = cname cls,
                                         pythonLength = pythonLength, tsLength = tsLength,
                                         ratio = jsDiv tsLength pythonLength\<rparr>]
                            else acc))
                    else acc)
                  (methods cls) acc)
              (classes tsData) []
      in take 15 (sortBy (\<lambda>a b. jsPositive (jsSub (ratio b) (ratio a))) methodRatios))"

text \<open>
  The methods of a dataset that satisfy \<open>P\<close>, each with its class, in dataset order; and
  the last of them whose key is that of \<open>m\<close> in \<open>cls\<close>: the method a key-indexed
  \<^verbatim>\<open>Map\<close> holds after all of them were stored.
\<close>

definition methodsWhere :: "(Method \<Rightarrow> bool) \<Rightarrow> SDKData \<Rightarrow> (Class \<times> Method) list" where
  "methodsWhere P d = concat (map (\<lambda>cls. map (Pair cls) (filter P (methods cls))) (classes d))"

definition lastMatch :: "(Method \<Rightarrow> bool) \<Rightarrow> SDKData \<Rightarrow> Class \<Rightarrow> Method \<Rightarrow> (Class \<times> Method) option" where
  "lastMatch P d cls m =
     List.find (\<lambda>(c, t). methodKey c t = methodKey cls m) (rev (methodsWhere P d))"

definition pythonEntry :: "Class \<Rightarrow> Method \<Rightarrow> Method \<Rightarrow> RatioEntry" where
  "pythonEntry cls m t =
     \<lparr>methodName = name m, className = cname cls, pythonLength = methodLength m,
      tsLength = methodLength t, ratio = jsDiv (methodLength m) (methodLength t)\<rparr>"

definition tsEntry :: "Class \<Rightarrow> Method \<Rightarrow> Method \<Rightarrow> RatioEntry" where
  "tsEntry cls m p =
     \<lparr>methodName = name m, className = cname cls, pythonLength = methodLength p,
      tsLength = methodLength m, ratio = jsDiv (methodLength m) (methodLength p)\<rparr>"

definition pythonExceeds :: "SDKData \<Rightarrow> SDKData \<Rightarrow> RatioEntry list" where
  "pythonExceeds tsData pythonData =
     concat (map (\<lambda>(cls, m).
         (case lastMatch notConstructor tsData cls m of
            None \<Rightarrow> []
          | Some (c, t) \<Rightarrow> if methodLength m > methodLength t then [pythonEntry cls m t] else []))
       (methodsWhere (\<lambda>m. True) pythonData))"

definition tsExceeds :: "SDKData \<Rightarrow> SDKData \<Rightarrow> RatioEntry list" where
  "tsExceeds tsData pythonData =
     concat (map (\<lambda>(cls, m).
         (case lastMatch (\<lambda>m. True) pythonData cls m of
            None \<Rightarrow> []
          | Some (c, p) \<Rightarrow> if methodLength m > methodLength p then [tsEntry cls m p] else []))
       (methodsWhere notConstructor tsData))"

text \<open>Example: two TypeScript methods of one class with the same loose normal form.\<close>

definition dupTs :: Class where
  "dupTs = \<lparr>cname = ''Foo'', cfile = ''protocol-v2/sdk/src/foo.ts'',
     methods = [mkMethod ''getX'' (Some 1) (Some 1), mkMethod ''get_x'' (Some 1) (Some 10)]\<rparr>"

definition dupPy :: Class where
  "dupPy = \<lparr>cname = ''Foo'', cfile = ''driftpy/foo.py'',
     methods = [mkMethod ''get_x'' (Some 1) (Some 5)]\<rparr>"

definition bazTs :: Class where
  "bazTs = \<lparr>cname = ''Baz'', cfile = ''protocol-v2/sdk/src/baz.ts'',
     methods = [mkMethod ''run'' (Some 1) (Some 10)]\<rparr>"

definition bazPy :: Class where
  "bazPy = \<lparr>cname = ''Baz'', cfile = ''driftpy/baz.py'',
     methods = [mkMethod ''run'' (Some 1) (Some 5)]\<rparr>"

definition exampleTs :: SDKData where
  "exampleTs = \<lparr>classes = [fooTs, bazTs]\<rparr>"

definition examplePy :: SDKData where
  "examplePy = \<lparr>classes = [fooPy, bazPy, barPy]\<rparr>"

section \<open>Method lists of a class card\<close>

text \<open>
  \<^verbatim>\<open>getSortedMethods\<close> works on arrays by reference: \<^verbatim>\<open>filter\<close> and the spread
  \<^verbatim>\<open>[...xs]\<close> make a new array, \<^verbatim>\<open>sort\<close> reorders the array it is called on and
  returns that same array. The heap holds the arrays by address; a class object holds the
  address of its \<^verbatim>\<open>methods\<close> array (\<open>oname\<close>, \<open>omethods\<close> for the source's \<^verbatim>\<open>name\<close>,
  \<^verbatim>\<open>methods\<close>).
\<close>

type_synonym ref = nat
type_synonym heap = "Method list list"

record ClassObj =
  oname :: string
  omethods :: ref

definition arrayAt :: "heap \<Rightarrow> ref \<Rightarrow> Method list" where
  "arrayAt h r = (if r < length h then h ! r else [])"

definition allocArray :: "Method list \<Rightarrow> heap \<Rightarrow> ref \<times> heap" where
  "allocArray xs h = (length h, h @ [xs])"

definition sortInPlace :: "(Method \<Rightarrow> Method \<Rightarrow> bool) \<Rightarrow> ref \<Rightarrow> heap \<Rightarrow> ref \<times> heap" where
  "sortInPlace after r h = (r, h[r := sortBy after (arrayAt h r)])"

text \<open>The comparators \<^verbatim>\<open>lengthB - lengthA\<close> and \<^verbatim>\<open>a.name.localeCompare(b.name)\<close>.\<close>

definition byLengthDesc :: "Method \<Rightarrow> Method \<Rightarrow> bool" where
  "byLengthDesc a b \<longleftrightarrow> methodLength b - methodLength a > 0"

definition byName :: "(string \<Rightarrow> string \<Rightarrow> int) \<Rightarrow> Method \<Rightarrow> Method \<Rightarrow> bool" where
  "byName localeCompare a b \<longleftrightarrow> localeCompare (name a) (name b) > 0"

text \<open>
  The variant with the hide-shared and sort-by-length toggles. The arrays
  \<^verbatim>\<open>sharedMethods\<close>, \<^verbatim>\<open>nonSharedMethods\<close> and their copies are local and fresh; only the
  returned array is given an address.
\<close>

definition getSortedMethods ::
  "(string \<Rightarrow> string \<Rightarrow> int) \<Rightarrow> (string \<rightharpoonup> ClassObj) \<Rightarrow> (string \<rightharpoonup> ClassObj) \<Rightarrow>
   string set \<Rightarrow> string set \<Rightarrow> ClassObj \<Rightarrow> string \<Rightarrow> heap \<Rightarrow> ref \<times> heap" where
  "getSortedMethods localeCompare tsClassesMap pythonClassesMap hideCommonMethods sortByLength
     sdkClass sdkName h =
     (let (methodsRef, h1) =
            (if sdkName = ''ts''
             then allocArray (filter notConstructor (arrayAt h (omethods sdkClass))) h
             else (omethods sdkClass, h));
          otherSdkName = (if sdkName = ''ts'' then ''python'' else ''ts'');
          otherClass =
            (if otherSdkName = ''ts'' then tsClassesMap (oname sdkClass)
             else pythonClassesMap (oname sdkClass));
          classKey = sdkName @ ''-'' @ oname sdkClass;
          shouldHideCommon = (classKey \<in> hideCommonMethods);
          shouldSortByLength = (classKey \<in> sortByLength)
      in case otherClass of
           None \<Rightarrow>
             (if shouldSortByLength then sortInPlace byLengthDesc methodsRef h1
              else sortInPlace (byName localeCompare) methodsRef h1)
         | Some other \<Rightarrow>
             (let otherMethodNames =
                    map (\<lambda>m. if otherSdkName = ''python'' then toCamelCase (name m) else name m)
                      (arrayAt h1 (omethods other));
                  isShared = (\<lambda>m. (if sdkName = ''python'' then toCamelCase (name m) else name m)
                                   \<in> set otherMethodNames);
                  sharedMethods = filter isShared (arrayAt h1 methodsRef);
                  nonSharedMethods = filter (\<lambda>m. \<not> isShared m) (arrayAt h1 methodsRef);
                  filteredMethods =
                    (if shouldHideCommon then nonSharedMethods
                     else sharedMethods @ nonSharedMethods)
              in allocArray
                   (if shouldSortByLength then sortBy byLengthDesc filteredMethods
                    else if shouldHideCommon then sortBy (byName localeCompare) filteredMethods
                    else sortBy (byName localeCompare) sharedMethods
                         @ sortBy (byName localeCompare) nonSharedMethods)
                   h1))"

text \<open>The variant without toggles: filter for TypeScript, then sort by name.\<close>

definition getSortedMethodsSimple ::
  "(string \<Rightarrow> string \<Rightarrow> int) \<Rightarrow> ClassObj \<Rightarrow> string \<Rightarrow> heap \<Rightarrow> ref \<times> heap" where
  "getSortedMethodsSimple localeCompare sdkClass sdkName h =
     (let (methodsRef, h1) =
            (if sdkName = ''ts''
             then allocArray (filter notConstructor (arrayAt h (omethods sdkClass))) h
             else (omethods sdkClass, h))
      in sortInPlace (byName localeCompare) methodsRef h1)"

text \<open>
  Example: \<^verbatim>\<open>pythonData\<close> has the one class \<open>Bar\<close>, whose methods array is at address 0,
  and \<^verbatim>\<open>tsData\<close> has no class.
\<close>

definition barObj :: ClassObj where
  "barObj = \<lparr>oname = ''Bar'', omethods = 0\<rparr>"

definition barHeap :: heap where
  "barHeap = [[mkMethod ''b'' (Some 1) (Some 1), mkMethod ''a'' (Some 2) (Some 9)]]"

text \<open>Example: a TypeScript-only class whose one method is its constructor.\<close>

definition widgetTs :: Class where
  "widgetTs = \<lparr>cname = ''Widget'', cfile = ''protocol-v2/sdk/src/widget.ts'',
     methods = [mkMethod ''constructor'' (Some 2) (Some 5)]\<rparr>"

definition tsOnlyFilters :: Filters where
  "tsOnlyFilters = \<lparr>showCommon = False, showTsOnly = True, showPythonOnly = False,
     searchTerm = ''constructor'', hideEmptyClasses = True\<rparr>"

section \<open>Snippet fetcher\<close>

text \<open>
  A cache entry (\<open>sfile\<close>, \<open>sline\<close>, \<open>resolvedStart\<close>, \<open>resolvedEnd\<close> for the source's
  \<^verbatim>\<open>file\<close>, \<^verbatim>\<open>line\<close>, \<^verbatim>\<open>startLine\<close>, \<^verbatim>\<open>endLine\<close>), and the part of the component state
  that \<^verbatim>\<open>fetchCodeSnippet\<close> reads and writes. The second copy of the component stores
  the first four fields only. The parameters \<^verbatim>\<open>startLine\<close>,
  \<^verbatim>\<open>endLine\<close> are \<open>startLn\<close>, \<open>endLn\<close>. \<open>consoleErrors\<close> is what
  \<^verbatim>\<open>console.error\<close> has received.
\<close>

record Snippet =
  content :: string
  sfile :: string
  sline :: int
  language :: string
  fullContent :: "string option"
  resolvedStart :: "int option"
  resolvedEnd :: "int option"

datatype error = NetworkError | GitHubApiError nat | JsonError | Base64Error

record ViewState =
  codeSnippets :: "string \<rightharpoonup> Snippet"
  loadingSnippets :: "string set"
  consoleErrors :: "error list"

text \<open>
  What the remote side answers: \<^verbatim>\<open>fetch\<close> rejects, or a response arrives with its
  \<^verbatim>\<open>ok\<close> flag and status, whose body is not JSON, or has a \<^verbatim>\<open>content\<close> field that
  \<^verbatim>\<open>atob\<close> rejects, or decodes to a file content.
\<close>

datatype body = BadJson | BadBase64 | Content string

datatype response = Rejected | Response bool nat body

definition stripPrefix :: "string \<Rightarrow> string \<Rightarrow> string" where
  "stripPrefix p s = (if prefix p s then drop (length p) s else s)"

definition getCleanFilePath :: "string \<Rightarrow> string \<Rightarrow> string" where
  "getCleanFilePath filePath sdkName =
     (if sdkName = ''ts'' then stripPrefix ''protocol-v2/sdk/src/'' filePath
      else stripPrefix ''driftpy/'' filePath)"

definition contentsUrl :: "string \<Rightarrow> string \<Rightarrow> string" where
  "contentsUrl filePath sdkName =
     (let cleanPath = getCleanFilePath filePath sdkName;
          repo = (if sdkName = ''ts'' then ''protocol-v2'' else ''driftpy'');
          branch = (if sdkName = ''ts'' then ''sdk/src'' else ''src/driftpy'')
      in ''https://api.github.com/repos/drift-labs/'' @ repo @ ''/contents/'' @ branch @ ''/''
         @ cleanPath)"

definition newline :: char where
  "newline = CHR 0x0A"

text \<open>\<^verbatim>\<open>content.split("\n")\<close> and \<^verbatim>\<open>lines.slice(start, stop)\<close>.\<close>

fun splitOn :: "char \<Rightarrow> string \<Rightarrow> string list" where
  "splitOn c [] = [[]]"
| "splitOn c (x # xs) =
     (if x = c then [] # splitOn c xs
      else (case splitOn c xs of [] \<Rightarrow> [[x]] | l # ls \<Rightarrow> (x # l) # ls))"

definition jsSlice :: "'a list \<Rightarrow> int \<Rightarrow> int \<Rightarrow> 'a list" where
  "jsSlice xs start stop =
     (let n = int (length xs);
          k = (if start < 0 then max (n + start) 0 else min start n);
          fin = (if stop < 0 then max (n + stop) 0 else min stop n)
      in take (nat (fin - k)) (drop (nat k) xs))"

text \<open>
  The \<^verbatim>\<open>try\<close> block after the request has settled: it throws, or ends with its one
  state update \<^verbatim>\<open>setCodeSnippets\<close>.
\<close>

definition fetchBody ::
  "string \<Rightarrow> int \<Rightarrow> int \<Rightarrow> string \<Rightarrow> string \<Rightarrow> response \<Rightarrow> ViewState \<Rightarrow> error + ViewState" where
  "fetchBody filePath startLn endLn sdkName key resp st =
     (let cleanPath = getCleanFilePath filePath sdkName in
      case resp of
        Rejected \<Rightarrow> Inl NetworkError
      | Response ok status b \<Rightarrow>
          if \<not> ok then Inl (GitHubApiError status)
          else
            (case b of
               BadJson \<Rightarrow> Inl JsonError
             | BadBase64 \<Rightarrow> Inl Base64Error
             | Content text \<Rightarrow>
                 (let lines = splitOn newline text;
                      snippetStart = max 0 (startLn - 1);
                      snippetEnd = min (int (length lines)) endLn;
                      snippetLines = jsSlice lines snippetStart snippetEnd
                  in Inr (st\<lparr>codeSnippets := (codeSnippets st)(key \<mapsto>
                       \<lparr>content = join [newline] snippetLines,
                        sfile = cleanPath,
                        sline = startLn,
                        language = (if sdkName = ''ts'' then ''typescript'' else ''python''),
                        fullContent = Some text,
                        resolvedStart = Some (snippetStart + 1),
                        resolvedEnd = Some snippetEnd\<rparr>)\<rparr>))))"

text \<open>
  \<^verbatim>\<open>try { body } catch (error) { handler } finally { fin }\<close> on the state: the result is
  the error that leaves the statement, if any, and the state after \<open>fin\<close>. A throwing
  body has made no state update.
\<close>

definition tryCatchFinally ::
  "(ViewState \<Rightarrow> error + ViewState) \<Rightarrow> (error \<Rightarrow> ViewState \<Rightarrow> error + ViewState) \<Rightarrow>
   (ViewState \<Rightarrow> ViewState) \<Rightarrow> ViewState \<Rightarrow> error option \<times> ViewState" where
  "tryCatchFinally tryBlock handler fin st =
     (case tryBlock st of
        Inr st1 \<Rightarrow> (None, fin st1)
      | Inl e \<Rightarrow>
          (case handler e st of
             Inr st2 \<Rightarrow> (None, fin st2)
           | Inl e2 \<Rightarrow> (Some e2, fin st)))"

definition logError :: "error \<Rightarrow> ViewState \<Rightarrow> error + ViewState" where
  "logError e st = Inr (st\<lparr>consoleErrors := consoleErrors st @ [e]\<rparr>)"

definition stopLoading :: "string \<Rightarrow> ViewState \<Rightarrow> ViewState" where
  "stopLoading key st = st\<lparr>loadingSnippets := loadingSnippets st - {key}\<rparr>"

text \<open>
  \<^verbatim>\<open>fetchCodeSnippet\<close> in two steps: up to the \<^verbatim>\<open>await\<close> it marks the key as loading;
  when the request has settled it runs the rest on the state of that moment. The state
  updates are functional (\<^verbatim>\<open>prev => ...\<close>), so other events may have changed the state
  in between.
\<close>

definition fetchCodeSnippetStart :: "string \<Rightarrow> ViewState \<Rightarrow> ViewState" where
  "fetchCodeSnippetStart key st = st\<lparr>loadingSnippets := insert key (loadingSnippets st)\<rparr>"

definition fetchCodeSnippetSettle ::
  "string \<Rightarrow> int \<Rightarrow> int \<Rightarrow> string \<Rightarrow> string \<Rightarrow> response \<Rightarrow> ViewState \<Rightarrow> error option \<times> ViewState" where
  "fetchCodeSnippetSettle filePath startLn endLn sdkName key resp st =
     tryCatchFinally (fetchBody filePath startLn endLn sdkName key resp) logError
       (stopLoading key) st"

definition fetchCodeSnippet ::
  "string \<Rightarrow> int \<Rightarrow> int \<Rightarrow> string \<Rightarrow> string \<Rightarrow> response \<Rightarrow> ViewState \<Rightarrow> error option \<times> ViewState" where
  "fetchCodeSnippet filePath startLn endLn sdkName key resp st =
     fetchCodeSnippetSettle filePath startLn endLn sdkName key resp
       (fetchCodeSnippetStart key st)"

text \<open>
  A response on which the \<^verbatim>\<open>try\<close> block throws, and the guard
  \<^verbatim>\<open>!codeSnippets.has(key)\<close> under which \<^verbatim>\<open>toggleCodeSnippet\<close> starts a fetch.
\<close>

definition failedResponse :: "response \<Rightarrow> bool" where
  "failedResponse resp =
     (case resp of Rejected \<Rightarrow> True
      | Response ok status b \<Rightarrow> \<not> ok \<or> b = BadJson \<or> b = BadBase64)"

definition needsFetch :: "ViewState \<Rightarrow> string \<Rightarrow> bool" where
  "needsFetch st key \<longleftrightarrow> codeSnippets st key = None"

definition emptyState :: ViewState where
  "emptyState = \<lparr>codeSnippets = Map.empty, loadingSnippets = {}, consoleErrors = []\<rparr>"

section \<open>Class filter: the text that is searched\<close>

text \<open>
  The text as the concatenation of the class name and all method names of both sides,
  with nothing in between.
\<close>

definition claimSearchText :: "string \<Rightarrow> Class option \<Rightarrow> Class option \<Rightarrow> string" where
  "claimSearchText clsName tsClass pythonClass =
     toLowerCase (clsName
       @ concat (case tsClass of None \<Rightarrow> [] | Some cls \<Rightarrow> map name (methods cls))
       @ concat (case pythonClass of None \<Rightarrow> [] | Some cls \<Rightarrow> map name (methods cls)))"

text \<open>
  A class, if present, that lists no method named \<open>constructor\<close>; the methods of a
  class without those named \<open>constructor\<close>; and all its methods.
\<close>

definition constructorFree :: "Class option \<Rightarrow> bool" where
  "constructorFree c \<longleftrightarrow>
     (case c of None \<Rightarrow> True | Some cls \<Rightarrow> list_all notConstructor (methods cls))"

definition countedMethods :: "Class option \<Rightarrow> Method list" where
  "countedMethods c = (case c of None \<Rightarrow> [] | Some cls \<Rightarrow> filter notConstructor (methods cls))"

definition allMethods :: "Class option \<Rightarrow> Method list" where
  "allMethods c = (case c of None \<Rightarrow> [] | Some cls \<Rightarrow> methods cls)"

definition barinitFilters :: Filters where
  "barinitFilters = \<lparr>showCommon = False, showTsOnly = False, showPythonOnly = True,
     searchTerm = ''barinit'', hideEmptyClasses = True\<rparr>"

definition commonFilters :: Filters where
  "commonFilters = \<lparr>showCommon = True, showTsOnly = False, showPythonOnly = False,
     searchTerm = ''Baz RUN'', hideEmptyClasses = True\<rparr>"

section \<open>Size ratios: the recorded method pairs\<close>

text \<open>
  The pairs of a Python method and a TypeScript method, each with its class, from which
  the Python-exceeds-TypeScript computation records an entry; and for the symmetric
  computation the pairs of a TypeScript method and a Python method. The last two classes
  are an example of a class name with a dot.
\<close>

definition pythonExceedsPairs ::
  "SDKData \<Rightarrow> SDKData \<Rightarrow> ((Class \<times> Method) \<times> (Class \<times> Method)) list" where
  "pythonExceedsPairs tsData pythonData =
     concat (map (\<lambda>(cls, m).
         (case lastMatch notConstructor tsData cls m of
            None \<Rightarrow> []
          | Some (c, t) \<Rightarrow> if methodLength m > methodLength t then [((cls, m), (c, t))] else []))
       (methodsWhere (\<lambda>m. True) pythonData))"

definition tsExceedsPairs ::
  "SDKData \<Rightarrow> SDKData \<Rightarrow> ((Class \<times> Method) \<times> (Class \<times> Method)) list" where
  "tsExceedsPairs tsData pythonData =
     concat (map (\<lambda>(cls, m).
         (case lastMatch (\<lambda>m. True) pythonData cls m of
            None \<Rightarrow> []
          | Some (c, p) \<Rightarrow> if methodLength m > methodLength p then [((cls, m), (c, p))] else []))
       (methodsWhere notConstructor tsData))"

definition dotTs :: Class where
  "dotTs = \<lparr>cname = ''A.b'', cfile = ''protocol-v2/sdk/src/a.ts'',
     methods = [mkMethod ''c'' (Some 1) (Some 1)]\<rparr>"

definition dotPy :: Class where
  "dotPy = \<lparr>cname = ''A'', cfile = ''driftpy/a.py'',
     methods = [mkMethod ''b.c'' (Some 1) (Some 5)]\<rparr>"

section \<open>Properties of the identifier normalizer\<close>

lemma of_char_underscore: "(of_char CHR ''_'' :: nat) = 95"
  by simp

lemma isLowerAZ_not_underscore: "isLowerAZ c \<Longrightarrow> c \<noteq> CHR ''_''"
  by (auto simp: isLowerAZ_def)

lemma of_char_toUpperChar:
  "isLowerAZ d \<Longrightarrow> (of_char (toUpperChar d) :: nat) = of_char d - 32"
proof -
  assume low: "isLowerAZ d"
  then have "(of_char d :: nat) \<le> 122" by (simp add: isLowerAZ_def)
  then have "(of_char d :: nat) - 32 < 256" by arith
  then have "((of_char d :: nat) - 32) mod 256 = of_char d - 32" by (rule mod_less)
  with low show ?thesis by (simp add: toUpperChar_def)
qed

lemma toUpperChar_not_lower: "isLowerAZ d \<Longrightarrow> \<not> isLowerAZ (toUpperChar d)"
  using of_char_toUpperChar [of d] by (auto simp: isLowerAZ_def)

lemma toUpperChar_not_underscore: "isLowerAZ d \<Longrightarrow> toUpperChar d \<noteq> CHR ''_''"
proof
  assume low: "isLowerAZ d" and eq: "toUpperChar d = CHR ''_''"
  from eq have "(of_char (toUpperChar d) :: nat) = 95" by simp
  with of_char_toUpperChar [OF low] have "(of_char d :: nat) - 32 = 95" by simp
  moreover from low have "(of_char d :: nat) \<le> 122" by (simp add: isLowerAZ_def)
  ultimately show False by linarith
qed

lemma toCamelCase_copy:
  "\<not> (c = CHR ''_'' \<and> cs \<noteq> [] \<and> isLowerAZ (hd cs)) \<Longrightarrow> toCamelCase (c # cs) = c # toCamelCase cs"
  by (cases cs) auto

lemma toCamelCase_match:
  "cs \<noteq> [] \<Longrightarrow> isLowerAZ (hd cs) \<Longrightarrow>
   toCamelCase (CHR ''_'' # cs) = toUpperChar (hd cs) # toCamelCase (tl cs)"
  by (cases cs) auto

lemma toCamelCase_no_underscore: "CHR ''_'' \<notin> set s \<Longrightarrow> toCamelCase s = s"
  by (induction s) (auto simp: toCamelCase_copy)

lemma toCamelCase_head:
  "toCamelCase (d # cs) = x # xs \<Longrightarrow> isLowerAZ x \<longleftrightarrow> isLowerAZ d"
  by (cases cs) (auto split: if_splits dest: toUpperChar_not_lower isLowerAZ_not_underscore)

lemma toCamelCase_idem: "toCamelCase (toCamelCase s) = toCamelCase s"
proof (induction s rule: toCamelCase.induct)
  case 1
  show ?case by simp
next
  case (2 c)
  show ?case by simp
next
  case (3 c d cs)
  show ?case
  proof (cases "c = CHR ''_'' \<and> isLowerAZ d")
    case True
    then have "toCamelCase (toUpperChar d # toCamelCase cs) = toUpperChar d # toCamelCase (toCamelCase cs)"
      by (intro toCamelCase_copy) (simp add: toUpperChar_not_underscore)
    with True 3 show ?thesis by simp
  next
    case False
    have "toCamelCase (d # cs) \<noteq> []" by (cases cs) auto
    then obtain x xs where hd: "toCamelCase (d # cs) = x # xs"
      by (auto simp: neq_Nil_conv)
    have "isLowerAZ x \<longleftrightarrow> isLowerAZ d"
      using toCamelCase_head [OF hd] .
    with False have "\<not> (c = CHR ''_'' \<and> x # xs \<noteq> [] \<and> isLowerAZ (hd (x # xs)))"
      by simp
    then have copy: "toCamelCase (c # x # xs) = c # toCamelCase (x # xs)"
      by (rule toCamelCase_copy)
    have ih: "toCamelCase (toCamelCase (d # cs)) = toCamelCase (d # cs)"
      using 3 False by blast
    have "toCamelCase (toCamelCase (c # d # cs)) = toCamelCase (c # toCamelCase (d # cs))"
      using False by auto
    also have "\<dots> = c # toCamelCase (toCamelCase (d # cs))"
      using copy by (simp only: hd)
    also have "\<dots> = toCamelCase (c # d # cs)"
      using False by (auto simp: ih)
    finally show ?thesis .
  qed
qed

lemma startsMatch_Cons_0:
  "startsMatch (c # cs) 0 \<longleftrightarrow> c = CHR ''_'' \<and> cs \<noteq> [] \<and> isLowerAZ (hd cs)"
  by (cases cs) (auto simp: startsMatch_def charAfter_def)

lemma normalizedAt_Suc: "normalizedAt p (c # cs) (Suc i) = normalizedAt (Some c) cs i"
  by (cases i) (simp_all add: normalizedAt_def startsMatch_def endsMatch_def charAfter_def charBefore_def)

lemma upt_shift: "map f [0..<Suc n] = f 0 # map (\<lambda>i. f (Suc i)) [0..<n]"
  by (simp add: upt_conv_Cons map_Suc_upt [symmetric] del: upt_Suc)

lemma normalized_positions:
  "concat (map (normalizedAt p s) [0..<length s]) =
     (if p = Some CHR ''_'' \<and> s \<noteq> [] \<and> isLowerAZ (hd s)
      then toUpperChar (hd s) # toCamelCase (tl s) else toCamelCase s)"
proof (induction s arbitrary: p)
  case Nil
  show ?case by simp
next
  case (Cons c cs)
  have split: "concat (map (normalizedAt p (c # cs)) [0..<length (c # cs)]) =
      normalizedAt p (c # cs) 0 @ concat (map (normalizedAt (Some c) cs) [0..<length cs])"
    by (simp add: upt_shift normalizedAt_Suc del: upt_Suc)
  show ?case
  proof (cases "startsMatch (c # cs) 0")
    case True
    then have m: "c = CHR ''_''" "cs \<noteq> []" "isLowerAZ (hd cs)"
      by (simp_all add: startsMatch_Cons_0)
    have "\<not> isLowerAZ c" using m(1) isLowerAZ_not_underscore by blast
    from m have rest: "concat (map (normalizedAt (Some c) cs) [0..<length cs]) =
        toUpperChar (hd cs) # toCamelCase (tl cs)"
      using Cons [of "Some c"] by simp
    have first: "normalizedAt p (c # cs) 0 = []"
      using True by (simp add: normalizedAt_def)
    from m \<open>\<not> isLowerAZ c\<close> show ?thesis
      unfolding split rest first by (simp add: toCamelCase_match)
  next
    case False
    then have copy: "toCamelCase (c # cs) = c # toCamelCase cs"
      by (intro toCamelCase_copy) (simp add: startsMatch_Cons_0)
    from False have rest: "concat (map (normalizedAt (Some c) cs) [0..<length cs]) = toCamelCase cs"
      using Cons [of "Some c"] by (auto simp: startsMatch_Cons_0)
    show ?thesis
      unfolding split rest copy using False
      by (auto simp: normalizedAt_def endsMatch_def charBefore_def dest: isLowerAZ_not_underscore)
  qed
qed

lemma underscoresLedByLetter_Cons:
  "underscoresLedByLetter (c # cs) \<longleftrightarrow>
     (c = CHR ''_'' \<longrightarrow> cs \<noteq> [] \<and> isLowerAZ (hd cs)) \<and> underscoresLedByLetter cs"
proof -
  have shift: "startsMatch (c # cs) (Suc i) = startsMatch cs i" for i
    by (simp add: startsMatch_def charAfter_def)
  have led: "underscoresLedByLetter s \<longleftrightarrow> (\<forall>i<length s. s ! i = CHR ''_'' \<longrightarrow> startsMatch s i)" for s
    by (auto simp: underscoresLedByLetter_def list_all_iff)
  have "underscoresLedByLetter (c # cs) \<longleftrightarrow>
      (\<forall>i<Suc (length cs). (c # cs) ! i = CHR ''_'' \<longrightarrow> startsMatch (c # cs) i)"
    by (simp only: led length_Cons)
  also have "\<dots> \<longleftrightarrow> (c = CHR ''_'' \<longrightarrow> startsMatch (c # cs) 0) \<and>
      (\<forall>i<length cs. cs ! i = CHR ''_'' \<longrightarrow> startsMatch cs i)"
    by (simp only: All_less_Suc2 nth_Cons_0 nth_Cons_Suc shift)
  finally show ?thesis
    by (simp only: led startsMatch_Cons_0) blast
qed

lemma spec_agrees: "underscoresLedByLetter s \<Longrightarrow> toCamelCase s = specNormalize s"
proof (induction s rule: toCamelCase.induct)
  case 1
  show ?case by simp
next
  case (2 c)
  then show ?case by (simp add: underscoresLedByLetter_Cons)
next
  case (3 c d cs)
  then show ?case
    by (auto simp: underscoresLedByLetter_Cons dest: isLowerAZ_not_underscore)
qed


text \<open>
  C2 (amended). For every string, \<open>toCamelCase\<close> returns the string in which exactly the
  underscores that stand immediately in front of a letter of a-z are deleted and that
  letter is upper-cased; every other character, also an underscore in front of a digit,
  an upper-case letter, another underscore or the end of the string, is kept. A string
  without underscores is returned unchanged, and where every underscore is followed by a
  letter of a-z the result is the form the specification describes. The function is
  total: it is defined by terminating recursion and has no error result.
\<close>

theorem toCamelCase_characterisation:
  "toCamelCase s = concat (map (normalizedAt None s) [0..<length s]) \<and>
   (CHR ''_'' \<notin> set s \<longrightarrow> toCamelCase s = s) \<and>
   (underscoresLedByLetter s \<longrightarrow> toCamelCase s = specNormalize s)"
  using normalized_positions [of None s] toCamelCase_no_underscore [of s] spec_agrees [of s]
  by simp

theorem toCamelCase_characterisation_witness:
  "CHR ''_'' \<notin> set ''price'' \<and> toCamelCase ''price'' = ''price'' \<and>
   underscoresLedByLetter ''get_price'' \<and> toCamelCase ''get_price'' = ''getPrice'' \<and>
   toCamelCase ''a__b_'' = concat (map (normalizedAt None ''a__b_'') [0..<5])"
proof -
  have h1: "CHR ''_'' \<notin> set ''price''" by simp
  have h2: "underscoresLedByLetter ''get_price''" by code_simp
  have s2: "specNormalize ''get_price'' = ''getPrice''" by code_simp
  from toCamelCase_characterisation [of "''price''"] h1
  have r1: "toCamelCase ''price'' = ''price''" by blast
  from toCamelCase_characterisation [of "''get_price''"] h2
  have "toCamelCase ''get_price'' = specNormalize ''get_price''" by blast
  with s2 have r2: "toCamelCase ''get_price'' = ''getPrice''" by simp
  have len: "length ''a__b_'' = 5" by simp
  have "toCamelCase ''a__b_'' = concat (map (normalizedAt None ''a__b_'') [0..<length ''a__b_''])"
    using toCamelCase_characterisation [of "''a__b_''"] by (rule conjunct1)
  then have r3: "toCamelCase ''a__b_'' = concat (map (normalizedAt None ''a__b_'') [0..<5])"
    by (simp only: len)
  from h1 r1 h2 r2 r3 show ?thesis by blast
qed

text \<open>
  C2 as stated fails: in \<open>a_1\<close> the underscore is followed by a digit, the regular
  expression does not match there and the underscore stays, whereas deleting each
  underscore gives \<open>a1\<close>.
\<close>

theorem toCamelCase_keeps_underscore_counterexample:
  "toCamelCase ''a_1'' = ''a_1'' \<and> specNormalize ''a_1'' = ''a1'' \<and>
   CHR ''_'' \<in> set (toCamelCase ''a_1'')"
  by code_simp

text \<open>
  C8. The normalizer is idempotent: normalizing a normalized string changes nothing.
\<close>

theorem toCamelCase_idempotent: "toCamelCase (toCamelCase s) = toCamelCase s"
  by (rule toCamelCase_idem)

section \<open>Properties of the library operations\<close>

lemma set_insertBy: "set (insertBy after x ys) = insert x (set ys)"
  by (induction ys) auto

lemma mset_insertBy: "mset (insertBy after x ys) = add_mset x (mset ys)"
  by (induction ys) auto

lemma mset_sortBy: "mset (sortBy after xs) = mset xs"
  by (induction xs) (simp_all add: sortBy_def mset_insertBy)

lemma set_sortBy: "set (sortBy after xs) = set xs"
  using mset_sortBy [of after xs] by (metis set_mset_mset)

lemma length_sortBy: "length (sortBy after xs) = length xs"
  using mset_sortBy [of after xs] by (metis size_mset)

lemma newSet_fold:
  "set (fold (\<lambda>x acc. if x \<in> set acc then acc else acc @ [x]) xs ys) = set ys \<union> set xs"
  by (induction xs arbitrary: ys) auto

lemma set_newSet: "set (newSet xs) = set xs"
  by (simp add: newSet_def newSet_fold)

lemma startsWith_prefix: "startsWith cs s \<longleftrightarrow> prefix s cs"
  by (induction cs s rule: startsWith.induct) auto

lemma includesStr_sublist: "includesStr hay s \<longleftrightarrow> sublist s hay"
  by (induction hay) (auto simp: startsWith_prefix sublist_Cons_right)

lemma find_snoc:
  "List.find P (xs @ [x]) =
     (case List.find P xs of Some y \<Rightarrow> Some y | None \<Rightarrow> if P x then Some x else None)"
  by (induction xs) auto

lemma insertBy_sorted:
  assumes total: "\<And>a b. a \<in> S \<Longrightarrow> b \<in> S \<Longrightarrow> after a b \<Longrightarrow> \<not> after b a"
    and trans: "\<And>a b c. a \<in> S \<Longrightarrow> b \<in> S \<Longrightarrow> c \<in> S \<Longrightarrow> \<not> after a b \<Longrightarrow> \<not> after b c \<Longrightarrow> \<not> after a c"
    and "x \<in> S" and "set ys \<subseteq> S"
    and "sorted_wrt (\<lambda>a b. \<not> after a b) ys"
  shows "sorted_wrt (\<lambda>a b. \<not> after a b) (insertBy after x ys)"
  using assms(3-)
proof (induction ys)
  case Nil
  show ?case by simp
next
  case (Cons y ys)
  show ?case
  proof (cases "after x y")
    case True
    have "\<not> after y x" using total [of x y] True Cons.prems by simp
    moreover have "sorted_wrt (\<lambda>a b. \<not> after a b) (insertBy after x ys)"
      using Cons by simp
    ultimately show ?thesis
      using True Cons.prems by (auto simp: set_insertBy)
  next
    case False
    have "\<not> after x z" if "z \<in> set ys" for z
      using trans [of x y z] False Cons.prems that by auto
    with False Cons.prems show ?thesis by auto
  qed
qed

lemma sortBy_sorted_on:
  assumes total: "\<And>a b. a \<in> S \<Longrightarrow> b \<in> S \<Longrightarrow> after a b \<Longrightarrow> \<not> after b a"
    and trans: "\<And>a b c. a \<in> S \<Longrightarrow> b \<in> S \<Longrightarrow> c \<in> S \<Longrightarrow> \<not> after a b \<Longrightarrow> \<not> after b c \<Longrightarrow> \<not> after a c"
    and "set xs \<subseteq> S"
  shows "sorted_wrt (\<lambda>a b. \<not> after a b) (sortBy after xs)"
  using assms(3)
proof (induction xs)
  case Nil
  show ?case by (simp add: sortBy_def)
next
  case (Cons x xs)
  have "sorted_wrt (\<lambda>a b. \<not> after a b) (insertBy after x (sortBy after xs))"
  proof (rule insertBy_sorted [where S = S])
    show "x \<in> S" using Cons.prems by simp
    show "set (sortBy after xs) \<subseteq> S" using Cons.prems by (simp add: set_sortBy)
    show "sorted_wrt (\<lambda>a b. \<not> after a b) (sortBy after xs)" using Cons by simp
  qed (use total trans in blast)+
  then show ?case by (simp add: sortBy_def)
qed

section \<open>Properties of the cross-SDK matcher\<close>

lemma status_absent:
  "getMethodComparisonStatus m None py sdk = ''missing''"
  "getMethodComparisonStatus m ts None sdk = ''missing''"
  by (simp_all add: getMethodComparisonStatus_def split: option.splits)

lemma tsMethodNames_set:
  "set (map name (filter notConstructor ms)) = name ` set ms - {''constructor''}"
  by (auto simp: notConstructor_def)

lemma status_present:
  "getMethodComparisonStatus m (Some tsC) (Some pyC) sdk =
    (let n = (if sdk = ''python'' then toCamelCase m else m);
         inTs = (n \<in> name ` set (methods tsC) - {''constructor''});
         inPy = (n \<in> toCamelCase ` name ` set (methods pyC))
     in if inTs \<and> inPy then ''both'' else if inTs then ''ts-only''
        else if inPy then ''python-only'' else ''missing'')"
proof -
  have py: "set (map toCamelCase (map name (methods pyC))) = toCamelCase ` name ` set (methods pyC)"
    by (simp add: image_image)
  show ?thesis
    by (simp only: getMethodComparisonStatus_def Let_def tsMethodNames_set py prod.case option.case)
      auto
qed

lemma status_example:
  assumes "name ` set (methods tsC) = {''getPrice'', ''constructor''}"
    and "name ` set (methods pyC) = {''get_price''}"
  shows "getMethodComparisonStatus ''getPrice'' (Some tsC) (Some pyC) ''ts'' = ''both''"
    and "getMethodComparisonStatus ''get_price'' (Some tsC) (Some pyC) ''python'' = ''both''"
proof -
  have c: "toCamelCase ''get_price'' = ''getPrice''" by code_simp
  show "getMethodComparisonStatus ''getPrice'' (Some tsC) (Some pyC) ''ts'' = ''both''"
    unfolding status_present assms by (simp add: c del: toCamelCase.simps)
  show "getMethodComparisonStatus ''get_price'' (Some tsC) (Some pyC) ''python'' = ''both''"
    unfolding status_present assms by (simp add: c del: toCamelCase.simps)
qed

text \<open>
  C1. The status is \<open>missing\<close> when either class is absent. With both classes present
  it is decided by whether the normalized query name (camelCased when the origin tag is
  \<open>python\<close>, unchanged otherwise) is a TypeScript method name other than
  \<open>constructor\<close>, and whether it is the camelCase form of a Python method name. For
  TypeScript methods \<open>getPrice\<close>, \<open>constructor\<close> and the Python method \<open>get_price\<close>
  both queries give \<open>both\<close>.
\<close>

theorem getMethodComparisonStatus_correct:
  "getMethodComparisonStatus m None pyO sdk = ''missing'' \<and>
   getMethodComparisonStatus m tsO None sdk = ''missing'' \<and>
   getMethodComparisonStatus m (Some tsC) (Some pyC) sdk =
    (let n = (if sdk = ''python'' then toCamelCase m else m);
         inTs = (n \<in> name ` set (methods tsC) - {''constructor''});
         inPy = (n \<in> toCamelCase ` name ` set (methods pyC))
     in if inTs \<and> inPy then ''both'' else if inTs then ''ts-only''
        else if inPy then ''python-only'' else ''missing'') \<and>
   (name ` set (methods tsC) = {''getPrice'', ''constructor''} \<and>
    name ` set (methods pyC) = {''get_price''} \<longrightarrow>
      getMethodComparisonStatus ''getPrice'' (Some tsC) (Some pyC) ''ts'' = ''both'' \<and>
      getMethodComparisonStatus ''get_price'' (Some tsC) (Some pyC) ''python'' = ''both'')"
proof (intro conjI impI)
  show "getMethodComparisonStatus m None pyO sdk = ''missing''"
    by (rule status_absent)
  show "getMethodComparisonStatus m tsO None sdk = ''missing''"
    by (rule status_absent)
  show "getMethodComparisonStatus m (Some tsC) (Some pyC) sdk =
    (let n = (if sdk = ''python'' then toCamelCase m else m);
         inTs = (n \<in> name ` set (methods tsC) - {''constructor''});
         inPy = (n \<in> toCamelCase ` name ` set (methods pyC))
     in if inTs \<and> inPy then ''both'' else if inTs then ''ts-only''
        else if inPy then ''python-only'' else ''missing'')"
    by (rule status_present)
next
  assume h: "name ` set (methods tsC) = {''getPrice'', ''constructor''} \<and>
    name ` set (methods pyC) = {''get_price''}"
  then show "getMethodComparisonStatus ''getPrice'' (Some tsC) (Some pyC) ''ts'' = ''both''"
    by (intro status_example) simp_all
  from h show "getMethodComparisonStatus ''get_price'' (Some tsC) (Some pyC) ''python'' = ''both''"
    by (intro status_example) simp_all
qed

theorem getMethodComparisonStatus_correct_witness:
  "name ` set (methods fooTs) = {''getPrice'', ''constructor''} \<and>
   name ` set (methods fooPy) = {''get_price''} \<and>
   getMethodComparisonStatus ''getPrice'' (Some fooTs) (Some fooPy) ''ts'' = ''both'' \<and>
   getMethodComparisonStatus ''get_price'' (Some fooTs) (Some fooPy) ''python'' = ''both'' \<and>
   getMethodComparisonStatus ''getPrice'' (Some fooTs) None ''ts'' = ''missing''"
proof -
  have h: "name ` set (methods fooTs) = {''getPrice'', ''constructor''} \<and>
      name ` set (methods fooPy) = {''get_price''}"
    by (simp add: fooTs_def fooPy_def mkMethod_def)
  note inst = getMethodComparisonStatus_correct
    [where tsC = fooTs and pyC = fooPy and m = "''getPrice''" and tsO = "Some fooTs" and sdk = "''ts''"
      and pyO = None]
  have imp: "name ` set (methods fooTs) = {''getPrice'', ''constructor''} \<and>
      name ` set (methods fooPy) = {''get_price''} \<longrightarrow>
      getMethodComparisonStatus ''getPrice'' (Some fooTs) (Some fooPy) ''ts'' = ''both'' \<and>
      getMethodComparisonStatus ''get_price'' (Some fooTs) (Some fooPy) ''python'' = ''both''"
    by (rule inst [THEN conjunct2, THEN conjunct2, THEN conjunct2])
  have miss: "getMethodComparisonStatus ''getPrice'' (Some fooTs) None ''ts'' = ''missing''"
    by (rule inst [THEN conjunct2, THEN conjunct1])
  from imp h miss show ?thesis by simp
qed

section \<open>Properties of the class index and the class filter\<close>

lemma classesMap_fold_dom:
  "dom (fold (\<lambda>cls m. m(cname cls \<mapsto> cls)) cs m0) = dom m0 \<union> cname ` set cs"
  by (induction cs arbitrary: m0) auto

lemma dom_classesMap: "dom (classesMap d) = cname ` set (classes d)"
  by (simp add: classesMap_def classesMap_fold_dom)

lemma classesMap_fold_find:
  "fold (\<lambda>cls m. m(cname cls \<mapsto> cls)) cs m0 n =
     (case List.find (\<lambda>c. cname c = n) (rev cs) of Some c \<Rightarrow> Some c | None \<Rightarrow> m0 n)"
  by (induction cs arbitrary: m0) (auto simp: find_snoc split: option.splits)

lemma classesMap_find:
  "classesMap d n = List.find (\<lambda>c. cname c = n) (rev (classes d))"
  by (simp add: classesMap_def classesMap_fold_find split: option.splits)

lemma set_allClassNames:
  "set (allClassNames tsData pythonData) =
     cname ` set (classes tsData) \<union> cname ` set (classes pythonData)"
  by (simp add: allClassNames_def set_newSet)

lemma set_sortedClassNames:
  "set (sortedClassNames lc tsData pythonData) =
     cname ` set (classes tsData) \<union> cname ` set (classes pythonData)"
  by (simp add: sortedClassNames_def Let_def set_sortBy set_allClassNames)

lemma keepClass_iff:
  "keepClass f tsMap pyMap n \<longleftrightarrow>
     (\<not> hideEmptyClasses f \<or> hasMethods (tsMap n) \<or> hasMethods (pyMap n)) \<and>
     (n \<in> dom tsMap \<and> n \<in> dom pyMap \<and> showCommon f \<or>
      n \<in> dom tsMap \<and> n \<notin> dom pyMap \<and> showTsOnly f \<or>
      n \<notin> dom tsMap \<and> n \<in> dom pyMap \<and> showPythonOnly f) \<and>
     (searchTerm f = [] \<or> sublist (toLowerCase (searchTerm f)) (searchText n (tsMap n) (pyMap n)))"
  by (auto simp: keepClass_def Let_def hasMethods_def methodsLength_def includesStr_sublist domIff
      split: option.splits)

lemma all_flags_off:
  "\<not> showCommon f \<Longrightarrow> \<not> showTsOnly f \<Longrightarrow> \<not> showPythonOnly f \<Longrightarrow>
   filteredClassNames lc f ts py = []"
  by (simp add: filteredClassNames_def keepClass_iff)

lemma filtered_iff:
  "n \<in> set (filteredClassNames lc f tsData pythonData) \<longleftrightarrow>
     (\<not> hideEmptyClasses f \<or> hasMethods (classesMap tsData n) \<or> hasMethods (classesMap pythonData n)) \<and>
     (n \<in> cname ` set (classes tsData) \<and> n \<in> cname ` set (classes pythonData) \<and> showCommon f \<or>
      n \<in> cname ` set (classes tsData) \<and> n \<notin> cname ` set (classes pythonData) \<and> showTsOnly f \<or>
      n \<notin> cname ` set (classes tsData) \<and> n \<in> cname ` set (classes pythonData) \<and> showPythonOnly f) \<and>
     (searchTerm f = [] \<or>
      sublist (toLowerCase (searchTerm f))
        (toLowerCase (n @ '' '' @ methodNamesText (classesMap tsData n) @ '' '' @
           methodNamesText (classesMap pythonData n))))"
  unfolding filteredClassNames_def set_filter mem_Collect_eq set_sortedClassNames keepClass_iff
    dom_classesMap searchText_def
  by blast

lemma constructorFree_counted: "constructorFree c \<Longrightarrow> countedMethods c = allMethods c"
  by (auto simp: constructorFree_def countedMethods_def allMethods_def list_all_iff
      split: option.splits)

lemma methodNamesText_all: "methodNamesText c = join '' '' (map name (allMethods c))"
  by (simp add: methodNamesText_def allMethods_def split: option.splits)

lemma hasMethods_all: "hasMethods c \<longleftrightarrow> allMethods c \<noteq> []"
  by (simp add: hasMethods_def allMethods_def split: option.splits)

lemma filtered_iff_constructorFree:
  assumes "constructorFree (classesMap tsData n)"
  shows "n \<in> set (filteredClassNames lc f tsData pythonData) \<longleftrightarrow>
     (\<not> hideEmptyClasses f \<or> countedMethods (classesMap tsData n) \<noteq> [] \<or>
        allMethods (classesMap pythonData n) \<noteq> []) \<and>
     (n \<in> cname ` set (classes tsData) \<and> n \<in> cname ` set (classes pythonData) \<and> showCommon f \<or>
      n \<in> cname ` set (classes tsData) \<and> n \<notin> cname ` set (classes pythonData) \<and> showTsOnly f \<or>
      n \<notin> cname ` set (classes tsData) \<and> n \<in> cname ` set (classes pythonData) \<and> showPythonOnly f) \<and>
     (searchTerm f = [] \<or>
      sublist (toLowerCase (searchTerm f))
        (toLowerCase (n @ '' '' @ join '' '' (map name (countedMethods (classesMap tsData n)))
           @ '' '' @ join '' '' (map name (allMethods (classesMap pythonData n))))))"
  unfolding filtered_iff constructorFree_counted [OF assms] methodNamesText_all hasMethods_all
  by (rule refl)

lemma toLowerChar_upper: "toLowerChar (toUpperChar c) = toLowerChar c"
proof (cases "isLowerAZ c")
  case True
  then have u: "(of_char (toUpperChar c) :: nat) = of_char c - 32" by (rule of_char_toUpperChar)
  from True have r: "97 \<le> (of_char c :: nat)" "(of_char c :: nat) \<le> 122" by (simp_all add: isLowerAZ_def)
  then have up: "isUpperAZ (toUpperChar c)" unfolding isUpperAZ_def u by arith
  from r have nu: "\<not> isUpperAZ c" by (simp add: isUpperAZ_def)
  from r have "(of_char c :: nat) - 32 + 32 = of_char c" by arith
  with up nu show ?thesis by (simp add: toLowerChar_def u)
next
  case False
  then show ?thesis by (simp add: toUpperChar_def)
qed

lemma toLowerCase_upper: "toLowerCase (map toUpperChar s) = toLowerCase s"
  by (simp add: toLowerCase_def toLowerChar_upper)

lemma keepClass_case:
  "keepClass (f\<lparr>searchTerm := map toUpperChar (searchTerm f)\<rparr>) tsMap pyMap n = keepClass f tsMap pyMap n"
  by (simp add: keepClass_def toLowerCase_upper)

lemma filtered_case:
  "filteredClassNames lc (f\<lparr>searchTerm := map toUpperChar (searchTerm f)\<rparr>) tsData pythonData =
     filteredClassNames lc f tsData pythonData"
proof -
  have "keepClass (f\<lparr>searchTerm := map toUpperChar (searchTerm f)\<rparr>) (classesMap tsData)
      (classesMap pythonData) = keepClass f (classesMap tsData) (classesMap pythonData)"
    by (rule ext) (rule keepClass_case)
  then show ?thesis by (simp add: filteredClassNames_def)
qed

text \<open>
  C4 (amended). For a class name whose TypeScript class, if there is one, lists no method
  named \<open>constructor\<close>: the name is in the filtered class list iff (a) hide-empty is off
  or at least one SDK has at least one method for that name, (b) its presence pattern
  (in both SDKs, only in TypeScript, only in Python) has its visibility flag on, and
  (c) the search term is empty or its lower-cased form is a substring of the lower-cased
  text made of the class name, the TypeScript method names joined by single blanks and
  the Python method names joined by single blanks, the three parts separated by single
  blanks. The class of a name is the last class of that name in the SDK's list. Upper-casing
  the search term does not change the list. With the three visibility flags off the
  filtered list is empty, for every input.
\<close>

theorem filteredClassNames_membership:
  "(constructorFree (classesMap tsData n) \<longrightarrow>
     (n \<in> set (filteredClassNames lc f tsData pythonData) \<longleftrightarrow>
       (\<not> hideEmptyClasses f \<or> countedMethods (classesMap tsData n) \<noteq> [] \<or>
          allMethods (classesMap pythonData n) \<noteq> []) \<and>
       (n \<in> cname ` set (classes tsData) \<and> n \<in> cname ` set (classes pythonData) \<and> showCommon f \<or>
        n \<in> cname ` set (classes tsData) \<and> n \<notin> cname ` set (classes pythonData) \<and> showTsOnly f \<or>
        n \<notin> cname ` set (classes tsData) \<and> n \<in> cname ` set (classes pythonData) \<and> showPythonOnly f) \<and>
       (searchTerm f = [] \<or>
        sublist (toLowerCase (searchTerm f))
          (toLowerCase (n @ '' '' @ join '' '' (map name (countedMethods (classesMap tsData n)))
             @ '' '' @ join '' '' (map name (allMethods (classesMap pythonData n)))))))) \<and>
   classesMap tsData n = List.find (\<lambda>c. cname c = n) (rev (classes tsData)) \<and>
   classesMap pythonData n = List.find (\<lambda>c. cname c = n) (rev (classes pythonData)) \<and>
   filteredClassNames lc (f\<lparr>searchTerm := map toUpperChar (searchTerm f)\<rparr>) tsData pythonData =
     filteredClassNames lc f tsData pythonData \<and>
   toLowerCase ''ABCDEFGHIJKLMNOPQRSTUVWXYZ'' = ''abcdefghijklmnopqrstuvwxyz'' \<and>
   (\<not> showCommon f \<and> \<not> showTsOnly f \<and> \<not> showPythonOnly f \<longrightarrow>
      filteredClassNames lc f tsData pythonData = [])"
proof (intro conjI impI)
  assume "constructorFree (classesMap tsData n)"
  then show "n \<in> set (filteredClassNames lc f tsData pythonData) \<longleftrightarrow>
       (\<not> hideEmptyClasses f \<or> countedMethods (classesMap tsData n) \<noteq> [] \<or>
          allMethods (classesMap pythonData n) \<noteq> []) \<and>
       (n \<in> cname ` set (classes tsData) \<and> n \<in> cname ` set (classes pythonData) \<and> showCommon f \<or>
        n \<in> cname ` set (classes tsData) \<and> n \<notin> cname ` set (classes pythonData) \<and> showTsOnly f \<or>
        n \<notin> cname ` set (classes tsData) \<and> n \<in> cname ` set (classes pythonData) \<and> showPythonOnly f) \<and>
       (searchTerm f = [] \<or>
        sublist (toLowerCase (searchTerm f))
          (toLowerCase (n @ '' '' @ join '' '' (map name (countedMethods (classesMap tsData n)))
             @ '' '' @ join '' '' (map name (allMethods (classesMap pythonData n))))))"
    by (rule filtered_iff_constructorFree)
next
  show "classesMap tsData n = List.find (\<lambda>c. cname c = n) (rev (classes tsData))"
    by (rule classesMap_find)
  show "classesMap pythonData n = List.find (\<lambda>c. cname c = n) (rev (classes pythonData))"
    by (rule classesMap_find)
  show "filteredClassNames lc (f\<lparr>searchTerm := map toUpperChar (searchTerm f)\<rparr>) tsData pythonData =
     filteredClassNames lc f tsData pythonData"
    by (rule filtered_case)
  show "toLowerCase ''ABCDEFGHIJKLMNOPQRSTUVWXYZ'' = ''abcdefghijklmnopqrstuvwxyz''"
    by code_simp
next
  assume "\<not> showCommon f \<and> \<not> showTsOnly f \<and> \<not> showPythonOnly f"
  then show "filteredClassNames lc f tsData pythonData = []"
    by (intro all_flags_off) simp_all
qed

theorem filteredClassNames_membership_witness:
  "constructorFree (classesMap exampleTs ''Baz'') \<and>
   ''Baz'' \<in> set (filteredClassNames firstCharCompare commonFilters exampleTs examplePy) \<and>
   ''Baz'' \<notin> set (filteredClassNames firstCharCompare pythonOnlyFilters exampleTs examplePy) \<and>
   constructorFree (classesMap exampleTs ''Bar'') \<and>
   ''Bar'' \<in> set (filteredClassNames firstCharCompare pythonOnlyFilters exampleTs examplePy) \<and>
   \<not> showCommon noFilters \<and> \<not> showTsOnly noFilters \<and> \<not> showPythonOnly noFilters \<and>
   filteredClassNames firstCharCompare noFilters exampleTs examplePy = []"
proof -
  have baz: "constructorFree (classesMap exampleTs ''Baz'')" by code_simp
  have bar: "constructorFree (classesMap exampleTs ''Bar'')" by code_simp
  note bazCommon = filteredClassNames_membership
    [of exampleTs "''Baz''" firstCharCompare commonFilters examplePy, THEN conjunct1, rule_format, OF baz]
  note bazPython = filteredClassNames_membership
    [of exampleTs "''Baz''" firstCharCompare pythonOnlyFilters examplePy, THEN conjunct1, rule_format, OF baz]
  note barPython = filteredClassNames_membership
    [of exampleTs "''Bar''" firstCharCompare pythonOnlyFilters examplePy, THEN conjunct1, rule_format, OF bar]
  have r1: "''Baz'' \<in> set (filteredClassNames firstCharCompare commonFilters exampleTs examplePy)"
    unfolding bazCommon by code_simp
  have r2: "''Baz'' \<notin> set (filteredClassNames firstCharCompare pythonOnlyFilters exampleTs examplePy)"
    unfolding bazPython by code_simp
  have r3: "''Bar'' \<in> set (filteredClassNames firstCharCompare pythonOnlyFilters exampleTs examplePy)"
    unfolding barPython by code_simp
  have off: "\<not> showCommon noFilters \<and> \<not> showTsOnly noFilters \<and> \<not> showPythonOnly noFilters"
    by (simp add: noFilters_def)
  have empty: "filteredClassNames firstCharCompare noFilters exampleTs examplePy = []"
    using filteredClassNames_membership
      [of exampleTs "''Bar''" firstCharCompare noFilters examplePy, THEN conjunct2, THEN conjunct2,
        THEN conjunct2, THEN conjunct2, THEN conjunct2]
      off
    by simp
  from baz bar r1 r2 r3 off empty show ?thesis by simp
qed

text \<open>
  C4 as stated fails. The Python-only class \<open>Bar\<close> has the method \<open>initialize\<close>; the
  search term \<open>barinit\<close> is a substring of the concatenation \<open>barinitialize\<close>, hide-empty
  is satisfied and the Python-only flag is on, yet the class is filtered out: the searched
  text is \<open>bar  initialize\<close>, its parts separated by blanks.
\<close>

theorem filteredClassNames_concatenation_counterexample:
  "''Bar'' \<notin> set (filteredClassNames firstCharCompare barinitFilters
      \<lparr>classes = []\<rparr> \<lparr>classes = [barPy]\<rparr>) \<and>
   hasMethods (classesMap \<lparr>classes = [barPy]\<rparr> ''Bar'') \<and>
   classesMap \<lparr>classes = []\<rparr> ''Bar'' = None \<and>
   showPythonOnly barinitFilters \<and>
   claimSearchText ''Bar'' None (classesMap \<lparr>classes = [barPy]\<rparr> ''Bar'') = ''barinitialize'' \<and>
   sublist (toLowerCase (searchTerm barinitFilters))
     (claimSearchText ''Bar'' None (classesMap \<lparr>classes = [barPy]\<rparr> ''Bar'')) \<and>
   searchText ''Bar'' None (classesMap \<lparr>classes = [barPy]\<rparr> ''Bar'') = ''bar  initialize''"
  by code_simp

section \<open>Properties of the longest-methods leaderboard\<close>

lemma sorted_by_length:
  "sorted_wrt (\<lambda>a b. lineLength a \<ge> lineLength b) (sortBy (\<lambda>a b. lineLength b - lineLength a > 0) xs)"
proof -
  have "sorted_wrt (\<lambda>a b. \<not> (lineLength b - lineLength a > 0))
      (sortBy (\<lambda>a b. lineLength b - lineLength a > 0) xs)"
    by (rule sortBy_sorted_on [where S = UNIV]) auto
  then show ?thesis
    by (rule sorted_wrt_mono_rel [rotated]) auto
qed

lemma fold_push:
  "fold (\<lambda>m acc. if P m then acc @ [g m] else acc) ms acc = acc @ map g (filter P ms)"
  by (induction ms arbitrary: acc) auto

lemma fold_push_classes:
  "fold (\<lambda>cls acc. fold (\<lambda>m acc. if P m then acc @ [g cls m] else acc) (methods cls) acc) cs acc
     = acc @ concat (map (\<lambda>cls. map (g cls) (filter P (methods cls))) cs)"
  by (induction cs arbitrary: acc) (auto simp: fold_push)

lemma fold_push_all:
  "fold (\<lambda>cls acc. fold (\<lambda>m acc. acc @ [g cls m]) (methods cls) acc) cs acc
     = acc @ concat (map (\<lambda>cls. map (g cls) (methods cls)) cs)"
  using fold_push_classes [of "\<lambda>_. True" g cs acc] by simp

lemma findLongestMethods_eq:
  "findLongestMethods tsData pythonData =
     take 15 (sortBy (\<lambda>a b. lineLength b - lineLength a > 0) (allMethodEntries tsData pythonData))"
proof -
  have ts: "fold (\<lambda>cls acc.
                fold (\<lambda>m acc. if name m \<noteq> ''constructor'' then acc @ [lengthEntry ''ts'' cls m]
                                else acc)
                  (methods cls) acc)
              (classes tsData) [] =
      concat (map (\<lambda>cls. map (lengthEntry ''ts'' cls) (filter notConstructor (methods cls)))
       (classes tsData))"
    using fold_push_classes [of notConstructor "lengthEntry ''ts''" "classes tsData" "[]"]
    by (simp add: notConstructor_def)
  show ?thesis
    by (simp only: findLongestMethods_def Let_def allMethodEntries_def ts fold_push_all)
qed

lemma methodLength_spec: "oneBased m \<Longrightarrow> methodLength m = specLength m"
  by (auto simp: oneBased_def methodLength_def specLength_def orElse_def split: option.splits)

lemma methodLength_default:
  "line m = None \<Longrightarrow> startLine m = None \<Longrightarrow> endLine m = None \<Longrightarrow> methodLength m = 1"
  by (simp add: methodLength_def orElse_def)

lemma entries_length: "e \<in> set (allMethodEntries ts py) \<Longrightarrow> lineLength e = methodLength (entryMethod e)"
  by (auto simp: allMethodEntries_def lengthEntry_def)


text \<open>
  C7. The longest-methods leaderboard is the first 15 entries of the stable descending
  sort by line-length of all method entries: every method of both SDKs except the
  TypeScript methods named \<open>constructor\<close>. The sort is a permutation of these entries
  and is descending by length, so the leaderboard is descending and has 15 entries, or all
  of them when there are fewer. Each entry's length is the line-length of its method,
  which for 1-based line fields is end line minus start line plus 1 with the fallbacks of
  the specification, and is 1 when all three line fields are missing. The computation is
  total.
\<close>

theorem findLongestMethods_correct:
  "findLongestMethods tsData pythonData =
     take 15 (sortBy (\<lambda>a b. lineLength b - lineLength a > 0) (allMethodEntries tsData pythonData)) \<and>
   mset (sortBy (\<lambda>a b. lineLength b - lineLength a > 0) (allMethodEntries tsData pythonData)) =
     mset (allMethodEntries tsData pythonData) \<and>
   sorted_wrt (\<lambda>a b. lineLength a \<ge> lineLength b)
     (sortBy (\<lambda>a b. lineLength b - lineLength a > 0) (allMethodEntries tsData pythonData)) \<and>
   sorted_wrt (\<lambda>a b. lineLength a \<ge> lineLength b) (findLongestMethods tsData pythonData) \<and>
   length (findLongestMethods tsData pythonData) = min 15 (length (allMethodEntries tsData pythonData)) \<and>
   (\<forall>e \<in> set (allMethodEntries tsData pythonData).
      lineLength e = methodLength (entryMethod e) \<and>
      (sdkTag e = ''ts'' \<longrightarrow> name (entryMethod e) \<noteq> ''constructor'')) \<and>
   (oneBased m \<longrightarrow> methodLength m = specLength m) \<and>
   (line m = None \<and> startLine m = None \<and> endLine m = None \<longrightarrow> methodLength m = 1)"
proof (intro conjI ballI impI)
  let ?after = "\<lambda>a b. lineLength b - lineLength a > 0"
  let ?all = "allMethodEntries tsData pythonData"
  show eq: "findLongestMethods tsData pythonData = take 15 (sortBy ?after ?all)"
    by (rule findLongestMethods_eq)
  show "mset (sortBy ?after ?all) = mset ?all"
    by (rule mset_sortBy)
  show sorted: "sorted_wrt (\<lambda>a b. lineLength a \<ge> lineLength b) (sortBy ?after ?all)"
    by (rule sorted_by_length)
  show "sorted_wrt (\<lambda>a b. lineLength a \<ge> lineLength b) (findLongestMethods tsData pythonData)"
    unfolding eq using sorted by (rule sorted_wrt_take)
  show "length (findLongestMethods tsData pythonData) = min 15 (length ?all)"
    unfolding eq by (simp add: length_sortBy min.commute)
next
  fix e assume "e \<in> set (allMethodEntries tsData pythonData)"
  then show "lineLength e = methodLength (entryMethod e)"
    by (rule entries_length)
next
  fix e assume "e \<in> set (allMethodEntries tsData pythonData)" and "sdkTag e = ''ts''"
  then show "name (entryMethod e) \<noteq> ''constructor''"
    by (auto simp: allMethodEntries_def lengthEntry_def notConstructor_def)
next
  assume "oneBased m"
  then show "methodLength m = specLength m" by (rule methodLength_spec)
next
  assume "line m = None \<and> startLine m = None \<and> endLine m = None"
  then show "methodLength m = 1" by (simp add: methodLength_default)
qed

theorem findLongestMethods_correct_witness:
  "map (\<lambda>e. (name (entryMethod e), sdkTag e, lineLength e))
     (findLongestMethods \<lparr>classes = [fooTs]\<rparr> \<lparr>classes = [fooPy, barPy]\<rparr>) =
     [(''get_price'', ''python'', 46), (''initialize'', ''python'', 4), (''getPrice'', ''ts'', 3)] \<and>
   length (allMethodEntries \<lparr>classes = [fooTs]\<rparr> \<lparr>classes = [fooPy, barPy]\<rparr>) = 3 \<and>
   oneBased (mkMethod ''getPrice'' (Some 10) (Some 12)) \<and>
   methodLength (mkMethod ''getPrice'' (Some 10) (Some 12)) = 3 \<and>
   line (mkMethod ''f'' None None) = None \<and>
   methodLength (mkMethod ''f'' None None) = 1"
proof -
  let ?ts = "\<lparr>classes = [fooTs]\<rparr>" and ?py = "\<lparr>classes = [fooPy, barPy]\<rparr>"
  let ?m = "mkMethod ''getPrice'' (Some 10) (Some 12)" and ?f = "mkMethod ''f'' None None"
  note inst = findLongestMethods_correct [of ?ts ?py ?m]
  note inst' = findLongestMethods_correct [of ?ts ?py ?f]
  have eq: "findLongestMethods ?ts ?py =
      take 15 (sortBy (\<lambda>a b. lineLength b - lineLength a > 0) (allMethodEntries ?ts ?py))"
    by (rule inst [THEN conjunct1])
  have board: "map (\<lambda>e. (name (entryMethod e), sdkTag e, lineLength e))
      (take 15 (sortBy (\<lambda>a b. lineLength b - lineLength a > 0) (allMethodEntries ?ts ?py))) =
     [(''get_price'', ''python'', 46), (''initialize'', ''python'', 4), (''getPrice'', ''ts'', 3)]"
    by code_simp
  have len: "length (allMethodEntries ?ts ?py) = 3" by code_simp
  have ob: "oneBased ?m" by code_simp
  have sl: "specLength ?m = 3" by code_simp
  have "oneBased ?m \<longrightarrow> methodLength ?m = specLength ?m"
    by (rule inst [THEN conjunct2, THEN conjunct2, THEN conjunct2, THEN conjunct2,
          THEN conjunct2, THEN conjunct2, THEN conjunct1])
  with ob sl have ml: "methodLength ?m = 3" by simp
  have none: "line ?f = None \<and> startLine ?f = None \<and> endLine ?f = None"
    by (simp add: mkMethod_def)
  have "line ?f = None \<and> startLine ?f = None \<and> endLine ?f = None \<longrightarrow> methodLength ?f = 1"
    by (rule inst' [THEN conjunct2, THEN conjunct2, THEN conjunct2, THEN conjunct2,
          THEN conjunct2, THEN conjunct2, THEN conjunct2])
  with none have d: "methodLength ?f = 1" by simp
  from board len ob ml none d show ?thesis unfolding eq by simp
qed

section \<open>Properties of the size-ratio leaderboards\<close>

lemma find_append:
  "List.find P (xs @ ys) = (case List.find P xs of Some x \<Rightarrow> Some x | None \<Rightarrow> List.find P ys)"
  by (induction xs) auto

lemma index_fold_methods:
  "fold (\<lambda>m idx. if P m then idx(methodKey cls m \<mapsto> (m, cname cls)) else idx) ms idx k =
     (case List.find (\<lambda>(c, t). methodKey c t = k) (rev (map (Pair cls) (filter P ms))) of
        Some (c, t) \<Rightarrow> Some (t, cname c) | None \<Rightarrow> idx k)"
  by (induction ms arbitrary: idx) (auto simp: find_append split: option.splits)

lemma index_fold_classes:
  "fold (\<lambda>cls idx. fold (\<lambda>m idx. if P m then idx(methodKey cls m \<mapsto> (m, cname cls)) else idx)
       (methods cls) idx) cs idx k =
     (case List.find (\<lambda>(c, t). methodKey c t = k)
        (rev (concat (map (\<lambda>cls. map (Pair cls) (filter P (methods cls))) cs))) of
        Some (c, t) \<Rightarrow> Some (t, cname c) | None \<Rightarrow> idx k)"
proof (induction cs arbitrary: idx)
  case Nil
  show ?case by simp
next
  case (Cons cls cs)
  let ?G = "\<lambda>cls. fold (\<lambda>m idx. if P m then idx(methodKey cls m \<mapsto> (m, cname cls)) else idx)
       (methods cls)"
  let ?Q = "\<lambda>(c, t). methodKey c t = k"
  let ?cands = "\<lambda>cs. concat (map (\<lambda>cls. map (Pair cls) (filter P (methods cls))) cs)"
  have "fold (\<lambda>cls idx. ?G cls idx) (cls # cs) idx k = fold (\<lambda>cls idx. ?G cls idx) cs (?G cls idx) k"
    by simp
  also have "\<dots> = (case List.find ?Q (rev (?cands cs)) of
        Some (c, t) \<Rightarrow> Some (t, cname c) | None \<Rightarrow> ?G cls idx k)"
    by (rule Cons)
  also have "\<dots> = (case List.find ?Q (rev (?cands (cls # cs))) of
        Some (c, t) \<Rightarrow> Some (t, cname c) | None \<Rightarrow> idx k)"
    by (simp add: index_fold_methods find_append split: option.splits)
  finally show ?case .
qed

lemma index_lastMatch:
  "fold (\<lambda>cls idx. fold (\<lambda>m idx. if P m then idx(methodKey cls m \<mapsto> (m, cname cls)) else idx)
       (methods cls) idx) (classes d) Map.empty (methodKey cls m) =
     map_option (\<lambda>(c, t). (t, cname c)) (lastMatch P d cls m)"
  by (simp add: index_fold_classes lastMatch_def methodsWhere_def split: option.splits)

lemma scan_fold_methods:
  assumes "\<And>m acc. f m acc = acc @ h m"
  shows "fold f ms acc = acc @ concat (map h ms)"
  by (induction ms arbitrary: acc) (simp_all add: assms)

lemma scan_fold_classes:
  assumes "\<And>cls m acc. f cls m acc = acc @ h cls m"
  shows "fold (\<lambda>cls acc. fold (f cls) (methods cls) acc) cs acc =
     acc @ concat (map (\<lambda>cls. concat (map (h cls) (methods cls))) cs)"
proof (induction cs arbitrary: acc)
  case Nil
  show ?case by simp
next
  case (Cons cls cs)
  have "fold (f cls) (methods cls) acc = acc @ concat (map (h cls) (methods cls))"
    by (rule scan_fold_methods) (rule assms)
  then show ?case by (simp add: Cons)
qed

lemma concat_methodsWhere:
  "concat (map (\<lambda>(cls, m). h cls m) (methodsWhere P d)) =
     concat (map (\<lambda>cls. concat (map (\<lambda>m. if P m then h cls m else []) (methods cls))) (classes d))"
proof -
  have inner: "concat (map ((\<lambda>(cls, m). h cls m) \<circ> Pair cls) (filter P ms)) =
      concat (map (\<lambda>m. if P m then h cls m else []) ms)" for cls ms
    by (induction ms) auto
  have "concat (map (\<lambda>(cls, m). h cls m) (concat (map (\<lambda>cls. map (Pair cls) (filter P (methods cls))) cs))) =
      concat (map (\<lambda>cls. concat (map (\<lambda>m. if P m then h cls m else []) (methods cls))) cs)" for cs
    by (induction cs) (simp_all add: inner)
  then show ?thesis by (simp add: methodsWhere_def)
qed

lemma findSizeRatioMethods_eq:
  "findSizeRatioMethods tsData pythonData =
     take 15 (sortBy (\<lambda>a b. jsPositive (jsSub (ratio b) (ratio a))) (pythonExceeds tsData pythonData))"
proof -
  define idx where "idx = fold (\<lambda>cls idx.
                fold (\<lambda>m idx. if name m \<noteq> ''constructor''
                                then idx(methodKey cls m \<mapsto> (m, cname cls)) else idx)
                  (methods cls) idx)
              (classes tsData) Map.empty"
  define h where "h = (\<lambda>cls m. case lastMatch notConstructor tsData cls m of
            None \<Rightarrow> []
          | Some (c, t) \<Rightarrow> if methodLength m > methodLength t then [pythonEntry cls m t] else [])"
  have idx: "idx (methodKey cls m) = map_option (\<lambda>(c, t). (t, cname c)) (lastMatch notConstructor tsData cls m)"
    for cls m
    unfolding idx_def
    using index_lastMatch [of notConstructor tsData cls m] by (simp add: notConstructor_def)
  have step: "(let pythonLength = methodLength m in
                     case idx (methodKey cls m) of
                       None \<Rightarrow> acc
                     | Some (tsMethod, _) \<Rightarrow>
                         (let tsLength = methodLength tsMethod in
                          if pythonLength > tsLength
                          then acc @ [\<lparr>methodName = name m, className = cname cls,
                                       pythonLength = pythonLength, tsLength = tsLength,
                                       ratio = jsDiv pythonLength tsLength\<rparr>]
                          else acc)) = acc @ h cls m" for cls m acc
    by (simp add: idx h_def Let_def pythonEntry_def split: option.splits)
  have scan: "fold (\<lambda>cls acc.
                fold (\<lambda>m acc.
                    (let pythonLength = methodLength m in
                     case idx (methodKey cls m) of
                       None \<Rightarrow> acc
                     | Some (tsMethod, _) \<Rightarrow>
                         (let tsLength = methodLength tsMethod in
                          if pythonLength > tsLength
                          then acc @ [\<lparr>methodName = name m, className = cname cls,
                                       pythonLength = pythonLength, tsLength = tsLength,
                                       ratio = jsDiv pythonLength tsLength\<rparr>]
                          else acc)))
                  (methods cls) acc)
              (classes pythonData) [] =
         [] @ concat (map (\<lambda>cls. concat (map (h cls) (methods cls))) (classes pythonData))"
    by (rule scan_fold_classes) (rule step)
  have "pythonExceeds tsData pythonData =
      concat (map (\<lambda>cls. concat (map (h cls) (methods cls))) (classes pythonData))"
    unfolding pythonExceeds_def h_def [symmetric] by (simp add: concat_methodsWhere)
  with scan show ?thesis
    unfolding findSizeRatioMethods_def idx_def [symmetric] by (simp add: Let_def)
qed

lemma findTsSizeRatioMethods_eq:
  "findTsSizeRatioMethods tsData pythonData =
     take 15 (sortBy (\<lambda>a b. jsPositive (jsSub (ratio b) (ratio a))) (tsExceeds tsData pythonData))"
proof -
  define idx where "idx = fold (\<lambda>cls idx.
                fold (\<lambda>m idx. idx(methodKey cls m \<mapsto> (m, cname cls))) (methods cls) idx)
              (classes pythonData) Map.empty"
  define h where "h = (\<lambda>cls m. case lastMatch (\<lambda>m. True) pythonData cls m of
            None \<Rightarrow> []
          | Some (c, p) \<Rightarrow> if methodLength m > methodLength p then [tsEntry cls m p] else [])"
  have idx: "idx (methodKey cls m) = map_option (\<lambda>(c, t). (t, cname c)) (lastMatch (\<lambda>m. True) pythonData cls m)"
    for cls m
    unfolding idx_def
    using index_lastMatch [of "\<lambda>m. True" pythonData cls m] by simp
  have step: "(if name m \<noteq> ''constructor'' then
                      (let tsLength = methodLength m in
                       case idx (methodKey cls m) of
                         None \<Rightarrow> acc
                       | Some (pythonMethod, _) \<Rightarrow>
                           (let pythonLength = methodLength pythonMethod in
                            if tsLength > pythonLength
                            then acc @ [\<lparr>methodName = name m, className = cname cls,
                                         pythonLength = pythonLength, tsLength = tsLength,
                                         ratio = jsDiv tsLength pythonLength\<rparr>]
                            else acc))
                    else acc) = acc @ (if notConstructor m then h cls m else [])" for cls m acc
    by (simp add: idx h_def Let_def tsEntry_def notConstructor_def split: option.splits)
  have scan: "fold (\<lambda>cls acc.
                fold (\<lambda>m acc.
                    if name m \<noteq> ''constructor'' then
                      (let tsLength = methodLength m in
                       case idx (methodKey cls m) of
                         None \<Rightarrow> acc
                       | Some (pythonMethod, _) \<Rightarrow>
                           (let pythonLength = methodLength pythonMethod in
                            if tsLength > pythonLength
                            then acc @ [\<lparr>methodName = name m, className = cname cls,
                                         pythonLength = pythonLength, tsLength = tsLength,
                                         ratio = jsDiv tsLength pythonLength\<rparr>]
                            else acc))
                    else acc)
                  (methods cls) acc)
              (classes tsData) [] =
         [] @ concat (map (\<lambda>cls. concat (map (\<lambda>m. if notConstructor m then h cls m else []) (methods cls)))
            (classes tsData))"
    by (rule scan_fold_classes) (rule step)
  have "tsExceeds tsData pythonData =
      concat (map (\<lambda>cls. concat (map (\<lambda>m. if notConstructor m then h cls m else []) (methods cls)))
        (classes tsData))"
    unfolding tsExceeds_def h_def [symmetric] by (simp add: concat_methodsWhere)
  with scan show ?thesis
    unfolding findTsSizeRatioMethods_def idx_def [symmetric] by (simp add: Let_def)
qed

lemma set_methodsWhere:
  "(c, t) \<in> set (methodsWhere P d) \<longleftrightarrow> c \<in> set (classes d) \<and> t \<in> set (methods c) \<and> P t"
  by (auto simp: methodsWhere_def)

lemma find_SomeD: "List.find Q xs = Some x \<Longrightarrow> x \<in> set xs \<and> Q x"
  by (induction xs) (auto split: if_splits)

lemma lastMatch_Some:
  "lastMatch P d cls m = Some (c, t) \<Longrightarrow>
     c \<in> set (classes d) \<and> t \<in> set (methods c) \<and> P t \<and> methodKey c t = methodKey cls m"
proof -
  assume "lastMatch P d cls m = Some (c, t)"
  then have "(c, t) \<in> set (rev (methodsWhere P d)) \<and> methodKey c t = methodKey cls m"
    unfolding lastMatch_def by (auto dest!: find_SomeD)
  then show ?thesis by (simp add: set_methodsWhere)
qed

lemma lastMatch_None:
  "lastMatch P d cls m = None \<longleftrightarrow>
     (\<forall>c \<in> set (classes d). \<forall>t \<in> set (methods c). P t \<longrightarrow> methodKey c t \<noteq> methodKey cls m)"
  unfolding lastMatch_def find_None_iff
  by (auto simp: set_methodsWhere)

lemma split_at_separator:
  "x \<notin> set xs \<Longrightarrow> x \<notin> set xs' \<Longrightarrow> xs @ x # ys = xs' @ x # ys' \<longleftrightarrow> xs = xs' \<and> ys = ys'"
proof (induction xs arbitrary: xs')
  case Nil
  then show ?case by (cases xs') auto
next
  case (Cons a xs)
  then show ?case by (cases xs') auto
qed

lemma methodKey_eq:
  "CHR ''.'' \<notin> set (cname c) \<Longrightarrow> CHR ''.'' \<notin> set (cname cls) \<Longrightarrow>
   methodKey c t = methodKey cls m \<longleftrightarrow>
     cname c = cname cls \<and> normalizeLoose (name t) = normalizeLoose (name m)"
  using split_at_separator [of "CHR ''.''" "cname c" "cname cls"
      "normalizeLoose (name t)" "normalizeLoose (name m)"]
  by (simp add: methodKey_def)

lemma in_python_step:
  "e \<in> set (case lastMatch P d cls m of None \<Rightarrow> []
       | Some (c, t) \<Rightarrow> if methodLength m > methodLength t then [pythonEntry cls m t] else []) \<longleftrightarrow>
     (\<exists>c t. lastMatch P d cls m = Some (c, t) \<and> methodLength m > methodLength t \<and>
        e = pythonEntry cls m t)"
  by (cases "lastMatch P d cls m") auto

lemma in_ts_step:
  "e \<in> set (case lastMatch P d cls m of None \<Rightarrow> []
       | Some (c, p) \<Rightarrow> if methodLength m > methodLength p then [tsEntry cls m p] else []) \<longleftrightarrow>
     (\<exists>c p. lastMatch P d cls m = Some (c, p) \<and> methodLength m > methodLength p \<and>
        e = tsEntry cls m p)"
  by (cases "lastMatch P d cls m") auto

lemma in_pythonExceeds:
  "e \<in> set (pythonExceeds tsData pythonData) \<longleftrightarrow>
     (\<exists>cls \<in> set (classes pythonData). \<exists>m \<in> set (methods cls). \<exists>c t.
        lastMatch notConstructor tsData cls m = Some (c, t) \<and>
        methodLength m > methodLength t \<and> e = pythonEntry cls m t)"
proof -
  have "e \<in> set (pythonExceeds tsData pythonData) \<longleftrightarrow>
      (\<exists>x \<in> set (methodsWhere (\<lambda>m. True) pythonData).
         \<exists>c t. lastMatch notConstructor tsData (fst x) (snd x) = Some (c, t) \<and>
           methodLength (snd x) > methodLength t \<and> e = pythonEntry (fst x) (snd x) t)"
    unfolding pythonExceeds_def set_concat set_map
    by (simp only: UN_iff bex_simps image_iff case_prod_beta in_python_step)
  also have "\<dots> \<longleftrightarrow> (\<exists>cls \<in> set (classes pythonData). \<exists>m \<in> set (methods cls). \<exists>c t.
        lastMatch notConstructor tsData cls m = Some (c, t) \<and>
        methodLength m > methodLength t \<and> e = pythonEntry cls m t)"
    by (simp only: Bex_def split_paired_Ex set_methodsWhere fst_conv snd_conv) blast
  finally show ?thesis .
qed

lemma in_tsExceeds:
  "e \<in> set (tsExceeds tsData pythonData) \<longleftrightarrow>
     (\<exists>cls \<in> set (classes tsData). \<exists>m \<in> set (methods cls). \<exists>c p.
        name m \<noteq> ''constructor'' \<and>
        lastMatch (\<lambda>m. True) pythonData cls m = Some (c, p) \<and>
        methodLength m > methodLength p \<and> e = tsEntry cls m p)"
proof -
  have "e \<in> set (tsExceeds tsData pythonData) \<longleftrightarrow>
      (\<exists>x \<in> set (methodsWhere notConstructor tsData).
         \<exists>c p. lastMatch (\<lambda>m. True) pythonData (fst x) (snd x) = Some (c, p) \<and>
           methodLength (snd x) > methodLength p \<and> e = tsEntry (fst x) (snd x) p)"
    unfolding tsExceeds_def set_concat set_map
    by (simp only: UN_iff bex_simps image_iff case_prod_beta in_ts_step)
  also have "\<dots> \<longleftrightarrow> (\<exists>cls \<in> set (classes tsData). \<exists>m \<in> set (methods cls). \<exists>c p.
        name m \<noteq> ''constructor'' \<and>
        lastMatch (\<lambda>m. True) pythonData cls m = Some (c, p) \<and>
        methodLength m > methodLength p \<and> e = tsEntry cls m p)"
    by (simp only: Bex_def split_paired_Ex set_methodsWhere fst_conv snd_conv notConstructor_def)
      blast
  finally show ?thesis .
qed

lemma after_iff_ge: "x \<noteq> NaN \<Longrightarrow> y \<noteq> NaN \<Longrightarrow> \<not> jsPositive (jsSub y x) \<longleftrightarrow> jsGe x y"
  by (cases x; cases y) auto

lemma after_asym: "jsPositive (jsSub y x) \<Longrightarrow> \<not> jsPositive (jsSub x y)"
  by (cases x; cases y) auto

lemma jsGe_trans: "jsGe x y \<Longrightarrow> jsGe y z \<Longrightarrow> jsGe x z"
  by (cases x; cases y; cases z) auto

lemma jsDiv_not_NaN: "a > b \<Longrightarrow> jsDiv a b \<noteq> NaN"
  by (simp add: jsDiv_def)

lemma sorted_by_ratio:
  fixes xs :: "RatioEntry list"
  assumes "\<And>e. e \<in> set xs \<Longrightarrow> ratio e \<noteq> NaN"
  shows "sorted_wrt (\<lambda>a b. jsGe (ratio a) (ratio b))
     (sortBy (\<lambda>a b. jsPositive (jsSub (ratio b) (ratio a))) xs)"
proof -
  let ?after = "\<lambda>a b. jsPositive (jsSub (ratio b) (ratio a))"
  have s: "sorted_wrt (\<lambda>a b. \<not> ?after a b) (sortBy ?after xs)"
  proof (rule sortBy_sorted_on [where S = "{e. ratio e \<noteq> NaN}"])
    show "set xs \<subseteq> {e. ratio e \<noteq> NaN}" using assms by auto
  next
    fix a b :: RatioEntry
    assume "a \<in> {e. ratio e \<noteq> NaN}" "b \<in> {e. ratio e \<noteq> NaN}" "?after a b"
    then show "\<not> ?after b a" using after_asym by blast
  next
    fix a b c :: RatioEntry
    assume "a \<in> {e. ratio e \<noteq> NaN}" "b \<in> {e. ratio e \<noteq> NaN}" "c \<in> {e. ratio e \<noteq> NaN}"
      and "\<not> ?after a b" "\<not> ?after b c"
    then show "\<not> ?after a c"
      using jsGe_trans [of "ratio a" "ratio b" "ratio c"] by (simp add: after_iff_ge)
  qed
  have "jsGe (ratio a) (ratio b)"
    if "a \<in> set (sortBy ?after xs)" "b \<in> set (sortBy ?after xs)" "\<not> ?after a b" for a b
    using that assms by (simp add: set_sortBy after_iff_ge)
  with s show ?thesis
    by (rule sorted_wrt_mono_rel [rotated]) 
qed

lemma pythonExceeds_entry:
  "e \<in> set (pythonExceeds tsData pythonData) \<Longrightarrow>
     ratio e = jsDiv (pythonLength e) (tsLength e) \<and> pythonLength e > tsLength e"
  by (auto simp: in_pythonExceeds pythonEntry_def)

lemma tsExceeds_entry:
  "e \<in> set (tsExceeds tsData pythonData) \<Longrightarrow>
     ratio e = jsDiv (tsLength e) (pythonLength e) \<and> tsLength e > pythonLength e"
  by (auto simp: in_tsExceeds tsEntry_def)

lemma findSizeRatioMethods_subset:
  "set (findSizeRatioMethods tsData pythonData) \<subseteq> set (pythonExceeds tsData pythonData)"
  unfolding findSizeRatioMethods_eq using set_take_subset [of 15] by (fastforce simp: set_sortBy)

lemma findTsSizeRatioMethods_subset:
  "set (findTsSizeRatioMethods tsData pythonData) \<subseteq> set (tsExceeds tsData pythonData)"
  unfolding findTsSizeRatioMethods_eq using set_take_subset [of 15] by (fastforce simp: set_sortBy)

lemma findSizeRatioMethods_sorted:
  "sorted_wrt (\<lambda>a b. jsGe (ratio a) (ratio b)) (findSizeRatioMethods tsData pythonData)"
  unfolding findSizeRatioMethods_eq
  by (intro sorted_wrt_take sorted_by_ratio) (metis jsDiv_not_NaN pythonExceeds_entry)

lemma findTsSizeRatioMethods_sorted:
  "sorted_wrt (\<lambda>a b. jsGe (ratio a) (ratio b)) (findTsSizeRatioMethods tsData pythonData)"
  unfolding findTsSizeRatioMethods_eq
  by (intro sorted_wrt_take sorted_by_ratio) (metis jsDiv_not_NaN tsExceeds_entry)

lemma sizeRatio_boards:
  fixes e :: RatioEntry
  shows
  "findSizeRatioMethods tsData pythonData =
     take 15 (sortBy (\<lambda>a b. jsPositive (jsSub (ratio b) (ratio a))) (pythonExceeds tsData pythonData)) \<and>
   findTsSizeRatioMethods tsData pythonData =
     take 15 (sortBy (\<lambda>a b. jsPositive (jsSub (ratio b) (ratio a))) (tsExceeds tsData pythonData)) \<and>
   (e \<in> set (pythonExceeds tsData pythonData) \<longleftrightarrow>
     (\<exists>cls \<in> set (classes pythonData). \<exists>m \<in> set (methods cls). \<exists>c t.
        lastMatch notConstructor tsData cls m = Some (c, t) \<and>
        methodLength m > methodLength t \<and> e = pythonEntry cls m t)) \<and>
   (e \<in> set (tsExceeds tsData pythonData) \<longleftrightarrow>
     (\<exists>cls \<in> set (classes tsData). \<exists>m \<in> set (methods cls). \<exists>c p.
        name m \<noteq> ''constructor'' \<and>
        lastMatch (\<lambda>m. True) pythonData cls m = Some (c, p) \<and>
        methodLength m > methodLength p \<and> e = tsEntry cls m p)) \<and>
   (lastMatch P d cls m = Some (c, t) \<longrightarrow>
      c \<in> set (classes d) \<and> t \<in> set (methods c) \<and> P t \<and> methodKey c t = methodKey cls m) \<and>
   (lastMatch P d cls m = None \<longleftrightarrow>
      (\<forall>c \<in> set (classes d). \<forall>t \<in> set (methods c). P t \<longrightarrow> methodKey c t \<noteq> methodKey cls m)) \<and>
   (CHR ''.'' \<notin> set (cname c) \<and> CHR ''.'' \<notin> set (cname cls) \<longrightarrow>
      (methodKey c t = methodKey cls m \<longleftrightarrow>
         cname c = cname cls \<and> normalizeLoose (name t) = normalizeLoose (name m))) \<and>
   mset (sortBy (\<lambda>a b. jsPositive (jsSub (ratio b) (ratio a))) (pythonExceeds tsData pythonData)) =
     mset (pythonExceeds tsData pythonData) \<and>
   sorted_wrt (\<lambda>a b. jsGe (ratio a) (ratio b)) (findSizeRatioMethods tsData pythonData) \<and>
   sorted_wrt (\<lambda>a b. jsGe (ratio a) (ratio b)) (findTsSizeRatioMethods tsData pythonData) \<and>
   length (findSizeRatioMethods tsData pythonData) \<le> 15 \<and>
   length (findTsSizeRatioMethods tsData pythonData) \<le> 15 \<and>
   (\<forall>a \<in> set (findSizeRatioMethods tsData pythonData).
      ratio a = jsDiv (pythonLength a) (tsLength a) \<and> pythonLength a > tsLength a) \<and>
   (\<forall>b \<in> set (findTsSizeRatioMethods tsData pythonData).
      ratio b = jsDiv (tsLength b) (pythonLength b) \<and> tsLength b > pythonLength b) \<and>
   (\<forall>a \<in> set (findSizeRatioMethods tsData pythonData).
    \<forall>b \<in> set (findTsSizeRatioMethods tsData pythonData).
      \<not> (pythonLength a = pythonLength b \<and> tsLength a = tsLength b))"
proof -
  have py: "ratio a = jsDiv (pythonLength a) (tsLength a) \<and> pythonLength a > tsLength a"
    if "a \<in> set (findSizeRatioMethods tsData pythonData)" for a
    using that findSizeRatioMethods_subset pythonExceeds_entry by blast
  have ts: "ratio b = jsDiv (tsLength b) (pythonLength b) \<and> tsLength b > pythonLength b"
    if "b \<in> set (findTsSizeRatioMethods tsData pythonData)" for b
    using that findTsSizeRatioMethods_subset tsExceeds_entry by blast
  have apart: "\<not> (pythonLength a = pythonLength b \<and> tsLength a = tsLength b)"
    if "a \<in> set (findSizeRatioMethods tsData pythonData)"
      and "b \<in> set (findTsSizeRatioMethods tsData pythonData)" for a b
    using py [OF that(1)] ts [OF that(2)] by auto
  have len: "length (findSizeRatioMethods tsData pythonData) \<le> 15"
    "length (findTsSizeRatioMethods tsData pythonData) \<le> 15"
    by (simp_all add: findSizeRatioMethods_eq findTsSizeRatioMethods_eq)
  have key: "CHR ''.'' \<notin> set (cname c) \<and> CHR ''.'' \<notin> set (cname cls) \<longrightarrow>
      (methodKey c t = methodKey cls m \<longleftrightarrow>
         cname c = cname cls \<and> normalizeLoose (name t) = normalizeLoose (name m))"
    using methodKey_eq [of c cls t m] by blast
  have some: "lastMatch P d cls m = Some (c, t) \<longrightarrow>
      c \<in> set (classes d) \<and> t \<in> set (methods c) \<and> P t \<and> methodKey c t = methodKey cls m"
    using lastMatch_Some [of P d cls m c t] by blast
  show ?thesis
    using findSizeRatioMethods_eq [of tsData pythonData]
      findTsSizeRatioMethods_eq [of tsData pythonData]
      in_pythonExceeds [of e tsData pythonData] in_tsExceeds [of e tsData pythonData]
      some lastMatch_None [of P d cls m] key
      mset_sortBy [of "\<lambda>a b. jsPositive (jsSub (ratio b) (ratio a))" "pythonExceeds tsData pythonData"]
      findSizeRatioMethods_sorted [of tsData pythonData]
      findTsSizeRatioMethods_sorted [of tsData pythonData]
      len py ts apart
    by (intro conjI ballI) (assumption | blast)+
qed

lemma pythonExceeds_pairs:
  "pythonExceeds tsData pythonData =
     map (\<lambda>((cls, m), (c, t)). pythonEntry cls m t) (pythonExceedsPairs tsData pythonData)"
  unfolding pythonExceeds_def pythonExceedsPairs_def map_concat map_map
  by (rule arg_cong [where f = concat], rule map_cong [OF refl])
     (auto split: option.splits)

lemma tsExceeds_pairs:
  "tsExceeds tsData pythonData =
     map (\<lambda>((cls, m), (c, p)). tsEntry cls m p) (tsExceedsPairs tsData pythonData)"
  unfolding tsExceeds_def tsExceedsPairs_def map_concat map_map
  by (rule arg_cong [where f = concat], rule map_cong [OF refl])
     (auto split: option.splits)

lemma in_pair_step:
  "x \<in> set (case lastMatch P d cls m of None \<Rightarrow> []
       | Some (c, t) \<Rightarrow> if methodLength m > methodLength t then [((cls, m), (c, t))] else []) \<longleftrightarrow>
     (\<exists>c t. lastMatch P d cls m = Some (c, t) \<and> methodLength m > methodLength t \<and>
        x = ((cls, m), (c, t)))"
  by (cases "lastMatch P d cls m") auto

lemma in_pythonExceedsPairs:
  "((cls, m), (c, t)) \<in> set (pythonExceedsPairs tsData pythonData) \<longleftrightarrow>
     cls \<in> set (classes pythonData) \<and> m \<in> set (methods cls) \<and>
     lastMatch notConstructor tsData cls m = Some (c, t) \<and> methodLength m > methodLength t"
proof -
  have "((cls, m), (c, t)) \<in> set (pythonExceedsPairs tsData pythonData) \<longleftrightarrow>
      (\<exists>x \<in> set (methodsWhere (\<lambda>m. True) pythonData).
         \<exists>c' t'. lastMatch notConstructor tsData (fst x) (snd x) = Some (c', t') \<and>
           methodLength (snd x) > methodLength t' \<and> ((cls, m), (c, t)) = ((fst x, snd x), (c', t')))"
    unfolding pythonExceedsPairs_def set_concat set_map
    by (simp only: UN_iff bex_simps image_iff case_prod_beta in_pair_step)
  also have "\<dots> \<longleftrightarrow> cls \<in> set (classes pythonData) \<and> m \<in> set (methods cls) \<and>
     lastMatch notConstructor tsData cls m = Some (c, t) \<and> methodLength m > methodLength t"
    by (auto simp: set_methodsWhere)
  finally show ?thesis .
qed

lemma in_tsExceedsPairs:
  "((cls, m), (c, p)) \<in> set (tsExceedsPairs tsData pythonData) \<longleftrightarrow>
     cls \<in> set (classes tsData) \<and> m \<in> set (methods cls) \<and> name m \<noteq> ''constructor'' \<and>
     lastMatch (\<lambda>m. True) pythonData cls m = Some (c, p) \<and> methodLength m > methodLength p"
proof -
  have "((cls, m), (c, p)) \<in> set (tsExceedsPairs tsData pythonData) \<longleftrightarrow>
      (\<exists>x \<in> set (methodsWhere notConstructor tsData).
         \<exists>c' t'. lastMatch (\<lambda>m. True) pythonData (fst x) (snd x) = Some (c', t') \<and>
           methodLength (snd x) > methodLength t' \<and> ((cls, m), (c, p)) = ((fst x, snd x), (c', t')))"
    unfolding tsExceedsPairs_def set_concat set_map
    by (simp only: UN_iff bex_simps image_iff case_prod_beta in_pair_step)
  also have "\<dots> \<longleftrightarrow> cls \<in> set (classes tsData) \<and> m \<in> set (methods cls) \<and> name m \<noteq> ''constructor'' \<and>
     lastMatch (\<lambda>m. True) pythonData cls m = Some (c, p) \<and> methodLength m > methodLength p"
    by (auto simp: set_methodsWhere notConstructor_def)
  finally show ?thesis .
qed

lemma pairs_apart:
  assumes "x \<in> set (pythonExceedsPairs tsData pythonData)"
  shows "(snd x, fst x) \<notin> set (tsExceedsPairs tsData pythonData)"
proof -
  obtain cls m c t where x: "x = ((cls, m), (c, t))" by (metis surj_pair)
  from assms have "methodLength m > methodLength t"
    unfolding x in_pythonExceedsPairs by simp
  then show ?thesis
    unfolding x by (simp add: in_tsExceedsPairs)
qed

lemma find_rev_last:
  "List.find Q (rev xs) = Some x \<Longrightarrow>
     \<exists>pre post. xs = pre @ x # post \<and> Q x \<and> (\<forall>y \<in> set post. \<not> Q y)"
proof (induction xs)
  case Nil
  then show ?case by simp
next
  case (Cons a xs)
  show ?case
  proof (cases "List.find Q (rev xs)")
    case None
    with Cons.prems have ax: "Q a" "x = a"
      by (auto simp: find_append split: if_splits)
    from None have "\<forall>y \<in> set xs. \<not> Q y" by (auto simp: find_None_iff)
    with ax have "a # xs = [] @ x # xs \<and> Q x \<and> (\<forall>y \<in> set xs. \<not> Q y)" by simp
    then show ?thesis by blast
  next
    case (Some y)
    with Cons.prems have "List.find Q (rev xs) = Some x" by (simp add: find_append)
    from Cons.IH [OF this] obtain pre post
      where "xs = pre @ x # post" "Q x" "\<forall>y \<in> set post. \<not> Q y" by blast
    then have "a # xs = (a # pre) @ x # post \<and> Q x \<and> (\<forall>y \<in> set post. \<not> Q y)" by simp
    then show ?thesis by blast
  qed
qed

lemma lastMatch_last:
  "lastMatch P d cls m = Some (c, t) \<Longrightarrow>
     \<exists>pre post. methodsWhere P d = pre @ (c, t) # post \<and>
       (\<forall>y \<in> set post. methodKey (fst y) (snd y) \<noteq> methodKey cls m)"
  unfolding lastMatch_def
  by (drule find_rev_last) (auto simp: case_prod_beta)

lemma lastMatch_exists:
  "(\<exists>c t. lastMatch P d cls m = Some (c, t)) \<longleftrightarrow>
     (\<exists>c \<in> set (classes d). \<exists>t \<in> set (methods c). P t \<and> methodKey c t = methodKey cls m)"
proof -
  have "(\<exists>c t. lastMatch P d cls m = Some (c, t)) \<longleftrightarrow> lastMatch P d cls m \<noteq> None"
    by auto
  then show ?thesis unfolding lastMatch_None by blast
qed

lemma board_from_pairs:
  "e \<in> set (findSizeRatioMethods tsData pythonData) \<Longrightarrow>
     \<exists>x \<in> set (pythonExceedsPairs tsData pythonData).
       e = pythonEntry (fst (fst x)) (snd (fst x)) (snd (snd x))"
  using findSizeRatioMethods_subset [of tsData pythonData]
  unfolding pythonExceeds_pairs by (auto simp: case_prod_beta)

lemma tsBoard_from_pairs:
  "e \<in> set (findTsSizeRatioMethods tsData pythonData) \<Longrightarrow>
     \<exists>x \<in> set (tsExceedsPairs tsData pythonData).
       e = tsEntry (fst (fst x)) (snd (fst x)) (snd (snd x))"
  using findTsSizeRatioMethods_subset [of tsData pythonData]
  unfolding tsExceeds_pairs by (auto simp: case_prod_beta)

text \<open>
  C6 (amended). The key of a method is its class name, a dot, and its name lower-cased
  with all underscores stripped. Before truncation the Python-exceeds-TypeScript
  computation records an entry for a Python method iff a TypeScript method not named
  \<open>constructor\<close> has the same key, and the Python line-length strictly exceeds the
  line-length of the \<^emph>\<open>last\<close> such TypeScript method in dataset order. For class names
  without a dot, two keys are equal iff the class names are equal and the normalized
  method names are equal. Each entry's ratio is the quotient of the Python by the
  TypeScript length; the leaderboard is the first 15 entries of the stable descending
  sort by ratio, so it is descending and has at most 15 entries. The
  TypeScript-exceeds-Python leaderboard is the symmetric computation. Every entry of a
  board comes from a recorded method pair, and a method pair recorded for one board is
  never recorded for the other.
\<close>

theorem sizeRatio_leaderboards:
  fixes e :: RatioEntry
  shows
  "(findSizeRatioMethods tsData pythonData =
     take 15 (sortBy (\<lambda>a b. jsPositive (jsSub (ratio b) (ratio a))) (pythonExceeds tsData pythonData)) \<and>
   findTsSizeRatioMethods tsData pythonData =
     take 15 (sortBy (\<lambda>a b. jsPositive (jsSub (ratio b) (ratio a))) (tsExceeds tsData pythonData)) \<and>
   (e \<in> set (pythonExceeds tsData pythonData) \<longleftrightarrow>
     (\<exists>cls \<in> set (classes pythonData). \<exists>m \<in> set (methods cls). \<exists>c t.
        lastMatch notConstructor tsData cls m = Some (c, t) \<and>
        methodLength m > methodLength t \<and> e = pythonEntry cls m t)) \<and>
   (e \<in> set (tsExceeds tsData pythonData) \<longleftrightarrow>
     (\<exists>cls \<in> set (classes tsData). \<exists>m \<in> set (methods cls). \<exists>c p.
        name m \<noteq> ''constructor'' \<and>
        lastMatch (\<lambda>m. True) pythonData cls m = Some (c, p) \<and>
        methodLength m > methodLength p \<and> e = tsEntry cls m p)) \<and>
   (lastMatch P d cls m = Some (c, t) \<longrightarrow>
      c \<in> set (classes d) \<and> t \<in> set (methods c) \<and> P t \<and> methodKey c t = methodKey cls m) \<and>
   (lastMatch P d cls m = None \<longleftrightarrow>
      (\<forall>c \<in> set (classes d). \<forall>t \<in> set (methods c). P t \<longrightarrow> methodKey c t \<noteq> methodKey cls m)) \<and>
   (CHR ''.'' \<notin> set (cname c) \<and> CHR ''.'' \<notin> set (cname cls) \<longrightarrow>
      (methodKey c t = methodKey cls m \<longleftrightarrow>
         cname c = cname cls \<and> normalizeLoose (name t) = normalizeLoose (name m))) \<and>
   mset (sortBy (\<lambda>a b. jsPositive (jsSub (ratio b) (ratio a))) (pythonExceeds tsData pythonData)) =
     mset (pythonExceeds tsData pythonData) \<and>
   sorted_wrt (\<lambda>a b. jsGe (ratio a) (ratio b)) (findSizeRatioMethods tsData pythonData) \<and>
   sorted_wrt (\<lambda>a b. jsGe (ratio a) (ratio b)) (findTsSizeRatioMethods tsData pythonData) \<and>
   length (findSizeRatioMethods tsData pythonData) \<le> 15 \<and>
   length (findTsSizeRatioMethods tsData pythonData) \<le> 15 \<and>
   (\<forall>a \<in> set (findSizeRatioMethods tsData pythonData).
      ratio a = jsDiv (pythonLength a) (tsLength a) \<and> pythonLength a > tsLength a) \<and>
   (\<forall>b \<in> set (findTsSizeRatioMethods tsData pythonData).
      ratio b = jsDiv (tsLength b) (pythonLength b) \<and> tsLength b > pythonLength b) \<and>
   (\<forall>a \<in> set (findSizeRatioMethods tsData pythonData).
    \<forall>b \<in> set (findTsSizeRatioMethods tsData pythonData).
      \<not> (pythonLength a = pythonLength b \<and> tsLength a = tsLength b))) \<and>
   pythonExceeds tsData pythonData =
     map (\<lambda>((cls, m), (c, t)). pythonEntry cls m t) (pythonExceedsPairs tsData pythonData) \<and>
   tsExceeds tsData pythonData =
     map (\<lambda>((cls, m), (c, p)). tsEntry cls m p) (tsExceedsPairs tsData pythonData) \<and>
   (((cls, m), (c, t)) \<in> set (pythonExceedsPairs tsData pythonData) \<longleftrightarrow>
      cls \<in> set (classes pythonData) \<and> m \<in> set (methods cls) \<and>
      lastMatch notConstructor tsData cls m = Some (c, t) \<and> methodLength m > methodLength t) \<and>
   (((c, t), (cls, m)) \<in> set (tsExceedsPairs tsData pythonData) \<longleftrightarrow>
      c \<in> set (classes tsData) \<and> t \<in> set (methods c) \<and> name t \<noteq> ''constructor'' \<and>
      lastMatch (\<lambda>m. True) pythonData c t = Some (cls, m) \<and> methodLength t > methodLength m) \<and>
   (\<forall>a \<in> set (findSizeRatioMethods tsData pythonData).
      \<exists>x \<in> set (pythonExceedsPairs tsData pythonData).
        a = pythonEntry (fst (fst x)) (snd (fst x)) (snd (snd x))) \<and>
   (\<forall>b \<in> set (findTsSizeRatioMethods tsData pythonData).
      \<exists>x \<in> set (tsExceedsPairs tsData pythonData).
        b = tsEntry (fst (fst x)) (snd (fst x)) (snd (snd x))) \<and>
   (\<forall>x \<in> set (pythonExceedsPairs tsData pythonData).
      (snd x, fst x) \<notin> set (tsExceedsPairs tsData pythonData)) \<and>
   (lastMatch P d cls m = Some (c, t) \<longrightarrow>
      (\<exists>pre post. methodsWhere P d = pre @ (c, t) # post \<and>
         (\<forall>y \<in> set post. methodKey (fst y) (snd y) \<noteq> methodKey cls m))) \<and>
   ((\<exists>c t. lastMatch P d cls m = Some (c, t)) \<longleftrightarrow>
      (\<exists>c \<in> set (classes d). \<exists>t \<in> set (methods c). P t \<and> methodKey c t = methodKey cls m))"
proof (rule conjI)
  show "findSizeRatioMethods tsData pythonData =
     take 15 (sortBy (\<lambda>a b. jsPositive (jsSub (ratio b) (ratio a))) (pythonExceeds tsData pythonData)) \<and>
   findTsSizeRatioMethods tsData pythonData =
     take 15 (sortBy (\<lambda>a b. jsPositive (jsSub (ratio b) (ratio a))) (tsExceeds tsData pythonData)) \<and>
   (e \<in> set (pythonExceeds tsData pythonData) \<longleftrightarrow>
     (\<exists>cls \<in> set (classes pythonData). \<exists>m \<in> set (methods cls). \<exists>c t.
        lastMatch notConstructor tsData cls m = Some (c, t) \<and>
        methodLength m > methodLength t \<and> e = pythonEntry cls m t)) \<and>
   (e \<in> set (tsExceeds tsData pythonData) \<longleftrightarrow>
     (\<exists>cls \<in> set (classes tsData). \<exists>m \<in> set (methods cls). \<exists>c p.
        name m \<noteq> ''constructor'' \<and>
        lastMatch (\<lambda>m. True) pythonData cls m = Some (c, p) \<and>
        methodLength m > methodLength p \<and> e = tsEntry cls m p)) \<and>
   (lastMatch P d cls m = Some (c, t) \<longrightarrow>
      c \<in> set (classes d) \<and> t \<in> set (methods c) \<and> P t \<and> methodKey c t = methodKey cls m) \<and>
   (lastMatch P d cls m = None \<longleftrightarrow>
      (\<forall>c \<in> set (classes d). \<forall>t \<in> set (methods c). P t \<longrightarrow> methodKey c t \<noteq> methodKey cls m)) \<and>
   (CHR ''.'' \<notin> set (cname c) \<and> CHR ''.'' \<notin> set (cname cls) \<longrightarrow>
      (methodKey c t = methodKey cls m \<longleftrightarrow>
         cname c = cname cls \<and> normalizeLoose (name t) = normalizeLoose (name m))) \<and>
   mset (sortBy (\<lambda>a b. jsPositive (jsSub (ratio b) (ratio a))) (pythonExceeds tsData pythonData)) =
     mset (pythonExceeds tsData pythonData) \<and>
   sorted_wrt (\<lambda>a b. jsGe (ratio a) (ratio b)) (findSizeRatioMethods tsData pythonData) \<and>
   sorted_wrt (\<lambda>a b. jsGe (ratio a) (ratio b)) (findTsSizeRatioMethods tsData pythonData) \<and>
   length (findSizeRatioMethods tsData pythonData) \<le> 15 \<and>
   length (findTsSizeRatioMethods tsData pythonData) \<le> 15 \<and>
   (\<forall>a \<in> set (findSizeRatioMethods tsData pythonData).
      ratio a = jsDiv (pythonLength a) (tsLength a) \<and> pythonLength a > tsLength a) \<and>
   (\<forall>b \<in> set (findTsSizeRatioMethods tsData pythonData).
      ratio b = jsDiv (tsLength b) (pythonLength b) \<and> tsLength b > pythonLength b) \<and>
   (\<forall>a \<in> set (findSizeRatioMethods tsData pythonData).
    \<forall>b \<in> set (findTsSizeRatioMethods tsData pythonData).
      \<not> (pythonLength a = pythonLength b \<and> tsLength a = tsLength b))"
    by (rule sizeRatio_boards)
next
  show "pythonExceeds tsData pythonData =
     map (\<lambda>((cls, m), (c, t)). pythonEntry cls m t) (pythonExceedsPairs tsData pythonData) \<and>
   tsExceeds tsData pythonData =
     map (\<lambda>((cls, m), (c, p)). tsEntry cls m p) (tsExceedsPairs tsData pythonData) \<and>
   (((cls, m), (c, t)) \<in> set (pythonExceedsPairs tsData pythonData) \<longleftrightarrow>
      cls \<in> set (classes pythonData) \<and> m \<in> set (methods cls) \<and>
      lastMatch notConstructor tsData cls m = Some (c, t) \<and> methodLength m > methodLength t) \<and>
   (((c, t), (cls, m)) \<in> set (tsExceedsPairs tsData pythonData) \<longleftrightarrow>
      c \<in> set (classes tsData) \<and> t \<in> set (methods c) \<and> name t \<noteq> ''constructor'' \<and>
      lastMatch (\<lambda>m. True) pythonData c t = Some (cls, m) \<and> methodLength t > methodLength m) \<and>
   (\<forall>a \<in> set (findSizeRatioMethods tsData pythonData).
      \<exists>x \<in> set (pythonExceedsPairs tsData pythonData).
        a = pythonEntry (fst (fst x)) (snd (fst x)) (snd (snd x))) \<and>
   (\<forall>b \<in> set (findTsSizeRatioMethods tsData pythonData).
      \<exists>x \<in> set (tsExceedsPairs tsData pythonData).
        b = tsEntry (fst (fst x)) (snd (fst x)) (snd (snd x))) \<and>
   (\<forall>x \<in> set (pythonExceedsPairs tsData pythonData).
      (snd x, fst x) \<notin> set (tsExceedsPairs tsData pythonData)) \<and>
   (lastMatch P d cls m = Some (c, t) \<longrightarrow>
      (\<exists>pre post. methodsWhere P d = pre @ (c, t) # post \<and>
         (\<forall>y \<in> set post. methodKey (fst y) (snd y) \<noteq> methodKey cls m))) \<and>
   ((\<exists>c t. lastMatch P d cls m = Some (c, t)) \<longleftrightarrow>
      (\<exists>c \<in> set (classes d). \<exists>t \<in> set (methods c). P t \<and> methodKey c t = methodKey cls m))"
  proof (intro conjI)
    show "pythonExceeds tsData pythonData =
       map (\<lambda>((cls, m), (c, t)). pythonEntry cls m t) (pythonExceedsPairs tsData pythonData)"
      by (rule pythonExceeds_pairs)
    show "tsExceeds tsData pythonData =
       map (\<lambda>((cls, m), (c, p)). tsEntry cls m p) (tsExceedsPairs tsData pythonData)"
      by (rule tsExceeds_pairs)
    show "((cls, m), (c, t)) \<in> set (pythonExceedsPairs tsData pythonData) \<longleftrightarrow>
        cls \<in> set (classes pythonData) \<and> m \<in> set (methods cls) \<and>
        lastMatch notConstructor tsData cls m = Some (c, t) \<and> methodLength m > methodLength t"
      by (rule in_pythonExceedsPairs)
    show "((c, t), (cls, m)) \<in> set (tsExceedsPairs tsData pythonData) \<longleftrightarrow>
        c \<in> set (classes tsData) \<and> t \<in> set (methods c) \<and> name t \<noteq> ''constructor'' \<and>
        lastMatch (\<lambda>m. True) pythonData c t = Some (cls, m) \<and> methodLength t > methodLength m"
      by (rule in_tsExceedsPairs)
    show "\<forall>a \<in> set (findSizeRatioMethods tsData pythonData).
        \<exists>x \<in> set (pythonExceedsPairs tsData pythonData).
          a = pythonEntry (fst (fst x)) (snd (fst x)) (snd (snd x))"
      using board_from_pairs by blast
    show "\<forall>b \<in> set (findTsSizeRatioMethods tsData pythonData).
        \<exists>x \<in> set (tsExceedsPairs tsData pythonData).
          b = tsEntry (fst (fst x)) (snd (fst x)) (snd (snd x))"
      using tsBoard_from_pairs by blast
    show "\<forall>x \<in> set (pythonExceedsPairs tsData pythonData).
        (snd x, fst x) \<notin> set (tsExceedsPairs tsData pythonData)"
      using pairs_apart by blast
    show "lastMatch P d cls m = Some (c, t) \<longrightarrow>
        (\<exists>pre post. methodsWhere P d = pre @ (c, t) # post \<and>
           (\<forall>y \<in> set post. methodKey (fst y) (snd y) \<noteq> methodKey cls m))"
      using lastMatch_last [of P d cls m c t] by blast
    show "(\<exists>c t. lastMatch P d cls m = Some (c, t)) \<longleftrightarrow>
        (\<exists>c \<in> set (classes d). \<exists>t \<in> set (methods c). P t \<and> methodKey c t = methodKey cls m)"
      by (rule lastMatch_exists)
  qed
qed

theorem sizeRatio_leaderboards_witness:
  "findSizeRatioMethods exampleTs examplePy =
     [\<lparr>methodName = ''get_price'', className = ''Foo'', pythonLength = 46, tsLength = 3,
       ratio = Fin (46 / 3)\<rparr>] \<and>
   findTsSizeRatioMethods exampleTs examplePy =
     [\<lparr>methodName = ''run'', className = ''Baz'', pythonLength = 5, tsLength = 10, ratio = Fin 2\<rparr>] \<and>
   lastMatch notConstructor exampleTs fooPy (mkMethod ''get_price'' (Some 5) (Some 50)) =
     Some (fooTs, mkMethod ''getPrice'' (Some 10) (Some 12)) \<and>
   fooTs \<in> set (classes exampleTs) \<and>
   CHR ''.'' \<notin> set (cname fooTs) \<and> CHR ''.'' \<notin> set (cname fooPy) \<and>
   methodKey fooTs (mkMethod ''getPrice'' (Some 10) (Some 12)) =
     methodKey fooPy (mkMethod ''get_price'' (Some 5) (Some 50)) \<and>
   ((fooPy, mkMethod ''get_price'' (Some 5) (Some 50)),
    (fooTs, mkMethod ''getPrice'' (Some 10) (Some 12))) \<in> set (pythonExceedsPairs exampleTs examplePy)"
proof -
  let ?pm = "mkMethod ''get_price'' (Some 5) (Some 50)"
  let ?tm = "mkMethod ''getPrice'' (Some 10) (Some 12)"
  note full = sizeRatio_leaderboards
    [of exampleTs examplePy _ notConstructor exampleTs fooPy ?pm fooTs ?tm]
  note inst = full [THEN conjunct1]
  have pair: "((fooPy, ?pm), (fooTs, ?tm)) \<in> set (pythonExceedsPairs exampleTs examplePy) \<longleftrightarrow>
      fooPy \<in> set (classes examplePy) \<and> ?pm \<in> set (methods fooPy) \<and>
      lastMatch notConstructor exampleTs fooPy ?pm = Some (fooTs, ?tm) \<and>
      methodLength ?pm > methodLength ?tm"
    by (rule full [THEN conjunct2, THEN conjunct2, THEN conjunct2, THEN conjunct1])
  have recorded: "((fooPy, ?pm), (fooTs, ?tm)) \<in> set (pythonExceedsPairs exampleTs examplePy)"
    unfolding pair by code_simp
  have b1: "findSizeRatioMethods exampleTs examplePy =
      take 15 (sortBy (\<lambda>a b. jsPositive (jsSub (ratio b) (ratio a))) (pythonExceeds exampleTs examplePy))"
    by (rule inst [THEN conjunct1])
  have b2: "findTsSizeRatioMethods exampleTs examplePy =
      take 15 (sortBy (\<lambda>a b. jsPositive (jsSub (ratio b) (ratio a))) (tsExceeds exampleTs examplePy))"
    by (rule inst [THEN conjunct2, THEN conjunct1])
  have e1: "take 15 (sortBy (\<lambda>a b. jsPositive (jsSub (ratio b) (ratio a))) (pythonExceeds exampleTs examplePy)) =
     [\<lparr>methodName = ''get_price'', className = ''Foo'', pythonLength = 46, tsLength = 3,
       ratio = Fin (46 / 3)\<rparr>]"
    by code_simp
  have e2: "take 15 (sortBy (\<lambda>a b. jsPositive (jsSub (ratio b) (ratio a))) (tsExceeds exampleTs examplePy)) =
     [\<lparr>methodName = ''run'', className = ''Baz'', pythonLength = 5, tsLength = 10, ratio = Fin 2\<rparr>]"
    by code_simp
  have lm: "lastMatch notConstructor exampleTs fooPy ?pm = Some (fooTs, ?tm)"
    by code_simp
  have "lastMatch notConstructor exampleTs fooPy ?pm = Some (fooTs, ?tm) \<longrightarrow>
      fooTs \<in> set (classes exampleTs) \<and> ?tm \<in> set (methods fooTs) \<and> notConstructor ?tm \<and>
      methodKey fooTs ?tm = methodKey fooPy ?pm"
    by (rule inst [THEN conjunct2, THEN conjunct2, THEN conjunct2, THEN conjunct2, THEN conjunct1])
  with lm have found: "fooTs \<in> set (classes exampleTs)" "methodKey fooTs ?tm = methodKey fooPy ?pm"
    by simp_all
  have dots: "CHR ''.'' \<notin> set (cname fooTs)" "CHR ''.'' \<notin> set (cname fooPy)"
    by (simp_all add: fooTs_def fooPy_def)
  from b1 b2 e1 e2 lm found dots recorded show ?thesis by simp
qed

text \<open>
  C6 as stated fails. The TypeScript class \<open>Foo\<close> has the methods \<open>getX\<close> (1 line) and
  \<open>get_x\<close> (10 lines), which have the same normalized name; the Python class \<open>Foo\<close> has
  \<open>get_x\<close> (5 lines). A TypeScript method of the same class and normalized name with a
  smaller line-length exists (\<open>getX\<close>), yet the board has no entry: the index keeps the
  last method stored under the key, \<open>get_x\<close> with 10 lines. And the Python class \<open>A\<close>
  with the method \<open>b.c\<close> gets an entry from the method \<open>c\<close> of the TypeScript class
  \<open>A.b\<close>, a class of another name with the same key.
\<close>

theorem findSizeRatioMethods_counterexample:
  "findSizeRatioMethods \<lparr>classes = [dupTs]\<rparr> \<lparr>classes = [dupPy]\<rparr> = [] \<and>
   cname dupTs = cname dupPy \<and>
   mkMethod ''getX'' (Some 1) (Some 1) \<in> set (methods dupTs) \<and>
   mkMethod ''get_x'' (Some 1) (Some 5) \<in> set (methods dupPy) \<and>
   normalizeLoose ''getX'' = normalizeLoose ''get_x'' \<and>
   methodLength (mkMethod ''get_x'' (Some 1) (Some 5)) > methodLength (mkMethod ''getX'' (Some 1) (Some 1)) \<and>
   findSizeRatioMethods \<lparr>classes = [dotTs]\<rparr> \<lparr>classes = [dotPy]\<rparr> =
     [\<lparr>methodName = ''b.c'', className = ''A'', pythonLength = 5, tsLength = 1, ratio = Fin 5\<rparr>] \<and>
   cname dotTs \<noteq> cname dotPy"
  by code_simp

section \<open>The class filter and constructors\<close>

text \<open>
  C5 fails on the class filter. The TypeScript-only class \<open>Widget\<close> has one method, its
  constructor. With hide-empty on, the filter keeps the class although it has no method
  other than the constructor, and the search term \<open>constructor\<close>, which is not part of
  the class name, matches it: the emptiness test and the search text both read the whole
  \<^verbatim>\<open>methods\<close> array.
\<close>

theorem filteredClassNames_counts_constructor:
  "filteredClassNames firstCharCompare tsOnlyFilters \<lparr>classes = [widgetTs]\<rparr> \<lparr>classes = []\<rparr>
     = [''Widget''] \<and>
   filter notConstructor (methods widgetTs) = [] \<and>
   hideEmptyClasses tsOnlyFilters \<and>
   searchTerm tsOnlyFilters = ''constructor'' \<and>
   \<not> sublist ''constructor'' (toLowerCase (cname widgetTs)) \<and>
   methodCount (classesMap \<lparr>classes = [widgetTs]\<rparr>) (classesMap \<lparr>classes = []\<rparr>) ''Widget'' = 0"
  by code_simp

section \<open>Method lists and the supplied data\<close>

lemma getSortedMethodsSimple_python:
  "getSortedMethodsSimple lc c ''python'' h =
     (omethods c, h[omethods c := sortBy (byName lc) (arrayAt h (omethods c))])"
  by (simp add: getSortedMethodsSimple_def sortInPlace_def)

lemma getSortedMethods_python_unmatched:
  "tsMap (oname c) = None \<Longrightarrow>
   getSortedMethods lc tsMap pyMap hc sl c ''python'' h =
     (omethods c,
      h[omethods c := sortBy (if ''python-'' @ oname c \<in> sl then byLengthDesc else byName lc)
          (arrayAt h (omethods c))])"
  by (simp add: getSortedMethods_def sortInPlace_def)

text \<open>
  The other branches work on a copy: for a TypeScript class, and for a Python class with a
  TypeScript class of the same name, every array that was in the heap is unchanged.
\<close>

lemma getSortedMethods_frame:
  assumes "sdkName = ''ts'' \<or> (sdkName \<noteq> ''ts'' \<and> tsMap (oname c) \<noteq> None)"
    and "r < length h"
  shows "arrayAt (snd (getSortedMethods lc tsMap pyMap hc sl c sdkName h)) r = arrayAt h r"
  using assms
  by (auto simp: getSortedMethods_def Let_def allocArray_def sortInPlace_def arrayAt_def nth_append
      split: option.splits)

text \<open>
  C3 fails on \<open>getSortedMethods\<close>. For a Python class the local \<^verbatim>\<open>methods\<close> is the
  class's own array, and without a TypeScript class of the same name the function sorts
  that array in place: the array of \<^verbatim>\<open>pythonData\<close> at address 0, \<open>b\<close> then \<open>a\<close>, holds
  \<open>a\<close> then \<open>b\<close> afterwards, with the length toggle on (for every collation) and with
  it off. The variant without toggles does so for every Python class.
\<close>

theorem getSortedMethods_mutates_input:
  "arrayAt barHeap (omethods barObj) = [mkMethod ''b'' (Some 1) (Some 1), mkMethod ''a'' (Some 2) (Some 9)] \<and>
   getSortedMethods lc Map.empty pyMap hc {''python-Bar''} barObj ''python'' barHeap =
     (omethods barObj, [[mkMethod ''a'' (Some 2) (Some 9), mkMethod ''b'' (Some 1) (Some 1)]]) \<and>
   getSortedMethods firstCharCompare Map.empty [''Bar'' \<mapsto> barObj] {} {} barObj ''python'' barHeap =
     (omethods barObj, [[mkMethod ''a'' (Some 2) (Some 9), mkMethod ''b'' (Some 1) (Some 1)]]) \<and>
   getSortedMethodsSimple firstCharCompare barObj ''python'' barHeap =
     (omethods barObj, [[mkMethod ''a'' (Some 2) (Some 9), mkMethod ''b'' (Some 1) (Some 1)]]) \<and>
   getSortedMethodsSimple lc c ''python'' h =
     (omethods c, h[omethods c := sortBy (byName lc) (arrayAt h (omethods c))])"
proof (intro conjI)
  show "arrayAt barHeap (omethods barObj) =
      [mkMethod ''b'' (Some 1) (Some 1), mkMethod ''a'' (Some 2) (Some 9)]"
    by (simp add: arrayAt_def barHeap_def barObj_def)
  show "getSortedMethods lc Map.empty pyMap hc {''python-Bar''} barObj ''python'' barHeap =
     (omethods barObj, [[mkMethod ''a'' (Some 2) (Some 9), mkMethod ''b'' (Some 1) (Some 1)]])"
    by (simp add: getSortedMethods_python_unmatched barObj_def barHeap_def arrayAt_def sortBy_def
        byLengthDesc_def methodLength_def orElse_def mkMethod_def)
  show "getSortedMethods firstCharCompare Map.empty [''Bar'' \<mapsto> barObj] {} {} barObj ''python'' barHeap =
     (omethods barObj, [[mkMethod ''a'' (Some 2) (Some 9), mkMethod ''b'' (Some 1) (Some 1)]])"
    by code_simp
  show "getSortedMethodsSimple firstCharCompare barObj ''python'' barHeap =
     (omethods barObj, [[mkMethod ''a'' (Some 2) (Some 9), mkMethod ''b'' (Some 1) (Some 1)]])"
    by code_simp
  show "getSortedMethodsSimple lc c ''python'' h =
     (omethods c, h[omethods c := sortBy (byName lc) (arrayAt h (omethods c))])"
    by (rule getSortedMethodsSimple_python)
qed

section \<open>Properties of the snippet fetcher\<close>

lemma settle_failed:
  assumes "failedResponse resp"
  shows "codeSnippets (snd (fetchCodeSnippetSettle filePath startLn endLn sdkName key resp st)) =
      codeSnippets st"
    and "\<exists>e. consoleErrors (snd (fetchCodeSnippetSettle filePath startLn endLn sdkName key resp st)) =
      consoleErrors st @ [e]"
  using assms
  by (auto simp: failedResponse_def fetchCodeSnippetSettle_def tryCatchFinally_def fetchBody_def
      logError_def stopLoading_def split: response.splits body.splits)

lemma settle_loading:
  "loadingSnippets (snd (fetchCodeSnippetSettle filePath startLn endLn sdkName key resp st)) =
     loadingSnippets st - {key}"
  by (auto simp: fetchCodeSnippetSettle_def tryCatchFinally_def fetchBody_def
      logError_def stopLoading_def Let_def split: response.splits body.splits)

lemma settle_never_throws:
  "fst (fetchCodeSnippetSettle filePath startLn endLn sdkName key resp st) = None"
  by (auto simp: fetchCodeSnippetSettle_def tryCatchFinally_def logError_def split: sum.splits)

lemma settle_not_loading:
  "key \<notin> loadingSnippets (snd (fetchCodeSnippetSettle filePath startLn endLn sdkName key resp st))"
  by (auto simp: fetchCodeSnippetSettle_def tryCatchFinally_def logError_def stopLoading_def
      split: sum.splits)

lemma settle_success:
  "\<not> failedResponse resp \<Longrightarrow>
   codeSnippets (snd (fetchCodeSnippetSettle filePath startLn endLn sdkName key resp st)) key \<noteq> None"
  by (auto simp: failedResponse_def fetchCodeSnippetSettle_def tryCatchFinally_def fetchBody_def
      logError_def stopLoading_def Let_def split: response.splits body.splits)

lemma start_then_settle:
  "fetchCodeSnippet filePath startLn endLn sdkName key resp st =
     fetchCodeSnippetSettle filePath startLn endLn sdkName key resp (fetchCodeSnippetStart key st)"
  by (simp add: fetchCodeSnippet_def)

lemma start_frame:
  "codeSnippets (fetchCodeSnippetStart key st) = codeSnippets st"
  "consoleErrors (fetchCodeSnippetStart key st) = consoleErrors st"
  "loadingSnippets (fetchCodeSnippetStart key st) = insert key (loadingSnippets st)"
  by (simp_all add: fetchCodeSnippetStart_def)

text \<open>
  C9. When the request is rejected, the response is not ok, or decoding fails, the error
  is caught: no error leaves \<open>fetchCodeSnippet\<close>, one error is logged, and the snippet
  cache is unchanged. So a key without an entry before the fetch has none afterwards and
  the guard for starting a fetch still holds. The same is true of the part that runs
  after the request has settled, from any state.
\<close>

theorem fetchCodeSnippet_failure_keeps_cache:
  "(failedResponse resp \<longrightarrow>
      fst (fetchCodeSnippet filePath startLn endLn sdkName key resp st) = None \<and>
      codeSnippets (snd (fetchCodeSnippet filePath startLn endLn sdkName key resp st)) = codeSnippets st \<and>
      (needsFetch st key \<longrightarrow>
         needsFetch (snd (fetchCodeSnippet filePath startLn endLn sdkName key resp st)) key) \<and>
      (\<exists>e. consoleErrors (snd (fetchCodeSnippet filePath startLn endLn sdkName key resp st)) =
         consoleErrors st @ [e]) \<and>
      fst (fetchCodeSnippetSettle filePath startLn endLn sdkName key resp st) = None \<and>
      codeSnippets (snd (fetchCodeSnippetSettle filePath startLn endLn sdkName key resp st)) =
        codeSnippets st) \<and>
   failedResponse Rejected \<and>
   failedResponse (Response False status b) \<and>
   failedResponse (Response True status BadJson) \<and>
   failedResponse (Response True status BadBase64) \<and>
   \<not> failedResponse (Response True status (Content fileText))"
proof (intro conjI impI)
  assume f: "failedResponse resp"
  show "fst (fetchCodeSnippet filePath startLn endLn sdkName key resp st) = None"
    unfolding start_then_settle by (rule settle_never_throws)
  show cache: "codeSnippets (snd (fetchCodeSnippet filePath startLn endLn sdkName key resp st)) =
      codeSnippets st"
    unfolding start_then_settle using settle_failed(1) [OF f] by (simp add: start_frame)
  show "\<exists>e. consoleErrors (snd (fetchCodeSnippet filePath startLn endLn sdkName key resp st)) =
      consoleErrors st @ [e]"
    unfolding start_then_settle
    using settle_failed(2) [OF f, of filePath startLn endLn sdkName key "fetchCodeSnippetStart key st"]
    by (simp add: start_frame)
  show "fst (fetchCodeSnippetSettle filePath startLn endLn sdkName key resp st) = None"
    by (rule settle_never_throws)
  show "codeSnippets (snd (fetchCodeSnippetSettle filePath startLn endLn sdkName key resp st)) =
      codeSnippets st"
    using f by (rule settle_failed)
  assume "needsFetch st key"
  then show "needsFetch (snd (fetchCodeSnippet filePath startLn endLn sdkName key resp st)) key"
    by (simp add: needsFetch_def cache)
qed (simp_all add: failedResponse_def)

theorem fetchCodeSnippet_failure_keeps_cache_witness:
  "failedResponse (Response False 404 BadJson) \<and>
   needsFetch emptyState ''ts-Foo-getPrice'' \<and>
   fst (fetchCodeSnippet ''protocol-v2/sdk/src/foo.ts'' 10 12 ''ts'' ''ts-Foo-getPrice''
      (Response False 404 BadJson) emptyState) = None \<and>
   codeSnippets (snd (fetchCodeSnippet ''protocol-v2/sdk/src/foo.ts'' 10 12 ''ts'' ''ts-Foo-getPrice''
      (Response False 404 BadJson) emptyState)) = codeSnippets emptyState \<and>
   needsFetch (snd (fetchCodeSnippet ''protocol-v2/sdk/src/foo.ts'' 10 12 ''ts'' ''ts-Foo-getPrice''
      (Response False 404 BadJson) emptyState)) ''ts-Foo-getPrice''"
proof -
  let ?run = "fetchCodeSnippet ''protocol-v2/sdk/src/foo.ts'' 10 12 ''ts'' ''ts-Foo-getPrice''
      (Response False 404 BadJson) emptyState"
  have f: "failedResponse (Response False 404 BadJson)"
    by (simp add: failedResponse_def)
  have n: "needsFetch emptyState ''ts-Foo-getPrice''"
    by (simp add: needsFetch_def emptyState_def)
  note inst = fetchCodeSnippet_failure_keeps_cache
    [of "Response False 404 BadJson" "''protocol-v2/sdk/src/foo.ts''" 10 12 "''ts''"
      "''ts-Foo-getPrice''" emptyState, THEN conjunct1, rule_format, OF f]
  from inst have "fst ?run = None" and "codeSnippets (snd ?run) = codeSnippets emptyState"
    and "needsFetch emptyState ''ts-Foo-getPrice'' \<longrightarrow> needsFetch (snd ?run) ''ts-Foo-getPrice''"
    by blast+
  with f n show ?thesis by blast
qed

text \<open>
  C10. Whatever the request came to, once \<open>fetchCodeSnippet\<close> has run its \<^verbatim>\<open>finally\<close>
  block the key is not in the in-flight set: the set afterwards is the set before without
  the key. This holds from every state in which the request settles, so also when the
  key was marked by the start of the fetch or by another event in between.
\<close>

theorem fetchCodeSnippet_clears_loading:
  "key \<notin> loadingSnippets (snd (fetchCodeSnippetSettle filePath startLn endLn sdkName key resp st)) \<and>
   loadingSnippets (snd (fetchCodeSnippetSettle filePath startLn endLn sdkName key resp st)) =
     loadingSnippets st - {key} \<and>
   key \<in> loadingSnippets (fetchCodeSnippetStart key st) \<and>
   key \<notin> loadingSnippets (snd (fetchCodeSnippet filePath startLn endLn sdkName key resp st)) \<and>
   loadingSnippets (snd (fetchCodeSnippet filePath startLn endLn sdkName key resp st)) =
     loadingSnippets st - {key} \<and>
   fst (fetchCodeSnippet filePath startLn endLn sdkName key resp st) = None"
  unfolding start_then_settle
  by (simp add: settle_loading settle_never_throws start_frame)

end
